theory Spec2Isabelle
  imports Complex_Main
begin

section \<open>Python values used by the two training drivers\<close>

text \<open>
  The repository holds two drivers of the same training loop:
  \<^verbatim>\<open>develop/T4148_train_adamW.py\<close> (variant A, early stopping on the epoch loss) and
  \<^verbatim>\<open>develop/T4148_train_loader.py\<close> (variant B, early stopping on the validation F1).
  Exceptions are values of type \<open>exn\<close>; a computation that may raise returns
  \<open>exn + 'a\<close> with \<open>Inl\<close> for the exception.
\<close>

datatype errno = EEXIST | ENOENT | EISDIR | EACCES

datatype exn =
    ValueError string
  | NameError string
  | ZeroDivisionError
  | OSError errno
  | Raised string  \<comment> \<open>an exception raised inside an imported library\<close>

text \<open>
  Losses and scores are Python floats (or the ints \<open>0\<close> and \<open>9999\<close>, which compare
  with floats exactly). Only their comparison matters here: a finite float is the real
  number it denotes, and the three special values compare as IEEE 754 says, every
  comparison with NaN being false.
\<close>

datatype pyfloat = NaN | NegInf | Fin real | PosInf

fun py_lt :: "pyfloat \<Rightarrow> pyfloat \<Rightarrow> bool" where
  "py_lt NaN _ = False"
| "py_lt _ NaN = False"
| "py_lt PosInf _ = False"
| "py_lt _ NegInf = False"
| "py_lt NegInf _ = True"
| "py_lt _ PosInf = True"
| "py_lt (Fin a) (Fin b) = (a < b)"

definition py_gt :: "pyfloat \<Rightarrow> pyfloat \<Rightarrow> bool" where
  "py_gt a b = py_lt b a"

definition py_le :: "pyfloat \<Rightarrow> pyfloat \<Rightarrow> bool" where
  \<comment> \<open>\<open>a <= b\<close> on floats\<close>
  "py_le a b = (a \<noteq> NaN \<and> b \<noteq> NaN \<and> \<not> py_lt b a)"

definition py_mod :: "int \<Rightarrow> int \<Rightarrow> exn + int" where
  \<comment> \<open>\<open>a % b\<close> on ints: the result has the sign of \<open>b\<close>, as \<open>mod\<close> on \<open>int\<close> has\<close>
  "py_mod a b = (if b = 0 then Inl ZeroDivisionError else Inr (a mod b))"

definition py_ceil_div :: "int \<Rightarrow> int \<Rightarrow> exn + int" where
  \<comment> \<open>\<open>math.ceil(a / b)\<close> on ints (the float quotient is exact for the sizes of a data set)\<close>
  "py_ceil_div a b = (if b = 0 then Inl ZeroDivisionError else Inr (- ((- a) div b)))"

subsection \<open>Strings\<close>

text \<open>
  A string is the list of its UTF-8 bytes. \<open>str.lower()\<close> is modelled on the ASCII
  letters; the bytes of other code points are left alone.
\<close>

definition lower_char :: "char \<Rightarrow> char" where
  "lower_char c =
     (case map_of (zip ''ABCDEFGHIJKLMNOPQRSTUVWXYZ'' ''abcdefghijklmnopqrstuvwxyz'') c of
        Some d \<Rightarrow> d
      | None \<Rightarrow> c)"

definition lower :: "string \<Rightarrow> string" where
  "lower s = map lower_char s"

definition replace_space :: "string \<Rightarrow> string" where
  \<comment> \<open>\<open>s.replace(" ", "_")\<close>\<close>
  "replace_space s = map (\<lambda>c. if c = CHR '' '' then CHR ''_'' else c) s"

fun str_nat :: "nat \<Rightarrow> string" where
  \<comment> \<open>the decimal digits of a number, as an f-string prints it\<close>
  "str_nat n =
     (if n < 10 then [''0123456789'' ! n]
      else str_nat (n div 10) @ [''0123456789'' ! (n mod 10)])"

declare str_nat.simps [simp del]

definition osp_join :: "string \<Rightarrow> string \<Rightarrow> string" where
  \<comment> \<open>\<open>os.path.join(a, b)\<close> on POSIX\<close>
  "osp_join a b =
     (if b \<noteq> [] \<and> hd b = CHR ''/'' then b
      else if a = [] \<or> last a = CHR ''/'' then a @ b
      else a @ ''/'' @ b)"

section \<open>\<open>symlink_force\<close>\<close>

text \<open>
  \<^verbatim>\<open>
  def symlink_force(target, link_name):
      try:
          os.symlink(target, link_name)
      except OSError as e:
          if e.errno == errno.EEXIST:
              os.remove(link_name)
              os.symlink(target, link_name)
          else:
              raise e
  \<close>
  The function is the same in both files. The two system calls are parameters: each takes
  the state of the operating system and returns the exception it raised, if any, with the
  state it left.
\<close>

definition symlink_force ::
  "(string \<Rightarrow> string \<Rightarrow> 'w \<Rightarrow> exn option \<times> 'w) \<Rightarrow> (string \<Rightarrow> 'w \<Rightarrow> exn option \<times> 'w) \<Rightarrow>
   string \<Rightarrow> string \<Rightarrow> 'w \<Rightarrow> exn option \<times> 'w" where
  "symlink_force os_symlink os_remove target link_name w =
     (case os_symlink target link_name w of
        (None, w1) \<Rightarrow> (None, w1)
      | (Some e, w1) \<Rightarrow>
          if e = OSError EEXIST then
            (case os_remove link_name w1 of
               (Some e', w2) \<Rightarrow> (Some e', w2)
             | (None, w2) \<Rightarrow> os_symlink target link_name w2)
          else (Some e, w1))"

text \<open>
  A small file system to run it on: what each path holds, which error (if any) the
  directory of a path gives to whoever creates or removes an entry there, and the system
  calls made so far.
\<close>

datatype node = RegularFile | SymlinkTo string | Directory

datatype syscall = Symlink string string | Remove string

record fs =
  entries :: "string \<Rightarrow> node option"
  dir_error :: "string \<Rightarrow> errno option"
  syscalls :: "syscall list"

definition os_symlink :: "string \<Rightarrow> string \<Rightarrow> fs \<Rightarrow> exn option \<times> fs" where
  "os_symlink target link_name s =
     (let s1 = s\<lparr>syscalls := syscalls s @ [Symlink target link_name]\<rparr> in
      if entries s link_name \<noteq> None then (Some (OSError EEXIST), s1)
      else case dir_error s link_name of
             Some n \<Rightarrow> (Some (OSError n), s1)
           | None \<Rightarrow> (None, s1\<lparr>entries := (entries s)(link_name \<mapsto> SymlinkTo target)\<rparr>))"

definition os_remove :: "string \<Rightarrow> fs \<Rightarrow> exn option \<times> fs" where
  "os_remove path s =
     (let s1 = s\<lparr>syscalls := syscalls s @ [Remove path]\<rparr> in
      case entries s path of
        None \<Rightarrow> (Some (OSError ENOENT), s1)
      | Some nd \<Rightarrow>
          (case dir_error s path of
             Some n \<Rightarrow> (Some (OSError n), s1)
           | None \<Rightarrow>
               if nd = Directory then (Some (OSError EISDIR), s1)
               else (None, s1\<lparr>entries := (entries s)(path := None)\<rparr>)))"

text \<open>Three file systems to run \<open>symlink_force\<close> on.\<close>

definition no_files :: fs where
  "no_files = \<lparr>entries = (\<lambda>p. None), dir_error = (\<lambda>p. None), syscalls = []\<rparr>"

definition a_directory :: fs where
  "a_directory = \<lparr>entries = (\<lambda>p. Some Directory), dir_error = (\<lambda>p. None), syscalls = []\<rparr>"

definition no_access :: fs where
  "no_access = \<lparr>entries = (\<lambda>p. None), dir_error = (\<lambda>p. Some EACCES), syscalls = []\<rparr>"

section \<open>\<open>str2bool\<close> (variant B)\<close>

text \<open>
  \<^verbatim>\<open>
  def str2bool(v):
      if isinstance(v, bool):
         return v
      if v.lower() in ('yes', 'true', 't', 'y', '1'):
          return True
      elif v.lower() in ('no', 'false', 'f', 'n', '0'):
          return False
      else:
          raise argparse.ArgumentTypeError('Boolean value expected.')
  \<close>
  The file imports \<open>ArgumentParser\<close> from \<open>argparse\<close>, never the module itself, so
  the last line raises \<open>NameError\<close> when it looks up the name \<open>argparse\<close>.
\<close>

datatype pyval = PyBool bool | PyStr string

definition true_strings :: "string list" where
  "true_strings = [''yes'', ''true'', ''t'', ''y'', ''1'']"

definition false_strings :: "string list" where
  "false_strings = [''no'', ''false'', ''f'', ''n'', ''0'']"

definition str2bool :: "pyval \<Rightarrow> exn + bool" where
  "str2bool v =
     (case v of
        PyBool b \<Rightarrow> Inr b
      | PyStr s \<Rightarrow>
          if lower s \<in> set true_strings then Inr True
          else if lower s \<in> set false_strings then Inr False
          else Inl (NameError ''argparse''))"

section \<open>\<open>parse_args\<close>\<close>

text \<open>
  The argument of the model is the namespace that \<open>parser.parse_args()\<close> returned;
  what \<open>argparse\<close> does with the command line before that is the library's. (In
  variant B it converts the value of \<open>--use_val\<close> with \<open>str2bool\<close>; an exception raised
  there leaves \<open>parse_args\<close> before any namespace exists.)
\<close>

record args_A =
  data_dir :: string
  model_dir :: string
  device :: string
  num_workers :: int
  image_size :: int
  input_size :: int
  batch_size :: int
  learning_rate :: pyfloat
  max_epoch :: int
  save_interval :: int
  wandb_name :: string
  seed :: int
  early_stop :: int

record args_B = args_A +
  use_val :: bool
  val_interval :: int

definition input_size_error :: exn where
  "input_size_error = ValueError ''`input_size` must be a multiple of 32''"

definition parse_args_A :: "args_A \<Rightarrow> exn + args_A" where
  "parse_args_A args =
     (if input_size args mod 32 \<noteq> 0 then Inl input_size_error else Inr args)"

definition val_json_warning :: "string list" where
  "val_json_warning =
     [''Not found: val.json '' @ [CHR 0xE2, CHR 0x86, CHR 0x92]
        @ '' Please set use_val=False or create val.json!'',
      ''[Warning]: Force reset use_val=False'']"

text \<open>
  Variant B reads the file system with \<open>osp.isfile\<close> and prints; the model takes
  \<open>isfile\<close> as a parameter and returns the printed lines with the result.
\<close>

definition parse_args_B :: "(string \<Rightarrow> bool) \<Rightarrow> args_B \<Rightarrow> string list \<times> (exn + args_B)" where
  "parse_args_B isfile args =
     (if input_size args mod 32 \<noteq> 0 then ([], Inl input_size_error)
      else if use_val args = True \<and> isfile (osp_join (data_dir args) ''ufo/val.json'') = False
      then (val_json_warning, Inr (args\<lparr>use_val := False\<rparr>))
      else ([], Inr args))"

text \<open>The values \<open>argparse\<close> gives when no flag is passed (on a machine without CUDA).\<close>

definition default_args_A :: args_A where
  "default_args_A =
     \<lparr>data_dir = ''../input/data/ICDAR17_Korean'', model_dir = ''trained_models'',
      device = ''cpu'', num_workers = 4, image_size = 1024, input_size = 512,
      batch_size = 12, learning_rate = Fin (1 / 1000), max_epoch = 200, save_interval = 5,
      wandb_name = ''Unnamed Test'', seed = 42, early_stop = 201\<rparr>"

definition default_args_B :: args_B where
  "default_args_B =
     \<lparr>data_dir = ''../input/data/ICDAR17_Korean'', model_dir = ''trained_models'',
      device = ''cpu'', num_workers = 4, image_size = 1024, input_size = 512,
      batch_size = 12, learning_rate = Fin (1 / 1000), max_epoch = 200, save_interval = 5,
      wandb_name = ''Unnamed Test'', seed = 42, early_stop = 20,
      use_val = True, val_interval = 1\<rparr>"

section \<open>\<open>do_training\<close>\<close>

text \<open>
  \<open>do_training\<close> calls into torch, numpy, the data set classes and the file system. The
  model keeps the calls it makes, in order, with the arguments that matter here, and takes
  the answers from an environment: whether a call raises, the length of a data set, and
  for each epoch what the batch loop and the validation loop produce, whether
  \<open>model_dir\<close> exists and what the clock says. An action returns its log of calls and
  either the exception that ended it or its value.
\<close>

datatype event =
    TorchManualSeed int
  | CudaManualSeed int
  | CudaManualSeedAll int
  | NpRandomSeed int
  | RandomSeed int
  | SceneTextDataset string string int int  \<comment> \<open>\<open>data_dir\<close>, \<open>split\<close>, \<open>image_size\<close>, \<open>crop_size\<close>\<close>
  | EASTDataset
  | DataLoader string int  \<comment> \<open>the split it loads, \<open>batch_size\<close>\<close>
  | TorchDevice string
  | EAST
  | ModelTo string
  | AdamW pyfloat
  | MultiStepLR int
  | ModelTrain
  | TorchSave string
  | Makedirs string
  | SymlinkForce string string

type_synonym 'a io = "event list \<times> (exn + 'a)"

definition io_return :: "'a \<Rightarrow> 'a io" where
  "io_return x = ([], Inr x)"

definition io_raise :: "exn \<Rightarrow> 'a io" where
  "io_raise e = ([], Inl e)"

definition io_of :: "exn + 'a \<Rightarrow> 'a io" where
  "io_of r = ([], r)"

definition io_bind :: "'a io \<Rightarrow> ('a \<Rightarrow> 'b io) \<Rightarrow> 'b io" where
  "io_bind m f =
     (case m of
        (evs, Inl e) \<Rightarrow> (evs, Inl e)
      | (evs, Inr x) \<Rightarrow> (case f x of (evs', r) \<Rightarrow> (evs @ evs', r)))"

definition ext_call :: "(event \<Rightarrow> exn option) \<Rightarrow> event \<Rightarrow> unit io" where
  "ext_call raises c = ([c], case raises c of Some e \<Rightarrow> Inl e | None \<Rightarrow> Inr ())"

primrec ext_calls :: "(event \<Rightarrow> exn option) \<Rightarrow> event list \<Rightarrow> unit io" where
  "ext_calls raises [] = io_return ()"
| "ext_calls raises (c # cs) = io_bind (ext_call raises c) (\<lambda>_. ext_calls raises cs)"

record epoch_env =
  train_batches :: "exn + pyfloat"
    \<comment> \<open>the batch loop and \<open>scheduler.step()\<close>: the \<open>epoch_loss\<close> they leave, or the exception\<close>
  validation :: "exn + pyfloat"
    \<comment> \<open>the validation loop and the read of \<open>ret['total']['hmean']\<close> after it (which fails
        when the loader gave no batch and \<open>ret\<close> is unbound): \<open>f1_score\<close>, or the exception\<close>
  model_dir_exists :: bool  \<comment> \<open>\<open>osp.exists(model_dir)\<close>\<close>
  now :: string  \<comment> \<open>\<open>datetime.now().strftime("%y%m%d_%H%M%S")\<close>\<close>
  raises :: "event \<Rightarrow> exn option"  \<comment> \<open>which calls of this epoch raise\<close>

record env =
  setup_raises :: "event \<Rightarrow> exn option"  \<comment> \<open>which calls before the loop raise\<close>
  cuda_available :: bool  \<comment> \<open>\<open>torch.cuda.is_available()\<close>\<close>
  dataset_len :: "string \<Rightarrow> nat"  \<comment> \<open>\<open>len\<close> of the data set of a split\<close>
  at_epoch :: "nat \<Rightarrow> epoch_env"

subsection \<open>The loop \<open>for epoch in range(max_epoch)\<close>\<close>

text \<open>
  The body of the loop takes the epoch and the loop variables and returns them updated,
  with \<open>True\<close> when it left the loop by \<open>break\<close>. The loop keeps one record for each
  epoch it entered and stops after an epoch that raised or broke.
\<close>

record 'st epoch_rec =
  rec_epoch :: nat
  rec_before :: 'st
  rec_events :: "event list"
  rec_result :: "exn + 'st \<times> bool"

primrec for_epochs ::
  "(nat \<Rightarrow> 'st \<Rightarrow> ('st \<times> bool) io) \<Rightarrow> nat \<Rightarrow> nat \<Rightarrow> 'st \<Rightarrow> 'st epoch_rec list" where
  "for_epochs body 0 epoch st = []"
| "for_epochs body (Suc n) epoch st =
     (case body epoch st of
        (evs, r) \<Rightarrow>
          \<lparr>rec_epoch = epoch, rec_before = st, rec_events = evs, rec_result = r\<rparr> #
          (case r of
             Inr (st', False) \<Rightarrow> for_epochs body n (Suc epoch) st'
           | _ \<Rightarrow> []))"

definition periodic_save :: "epoch_env \<Rightarrow> string \<Rightarrow> string \<Rightarrow> unit io" where
  \<comment> \<open>the body of \<open>if (epoch + 1) % save_interval == 0:\<close>, the same in both files but for
      the name of the checkpoint\<close>
  "periodic_save ev mdir pth_name =
     io_bind (if \<not> model_dir_exists ev then ext_call (raises ev) (Makedirs mdir)
              else io_return ()) (\<lambda>_.
     io_bind (ext_call (raises ev) (TorchSave (osp_join mdir pth_name))) (\<lambda>_.
     ext_call (raises ev) (SymlinkForce pth_name (osp_join mdir ''latest.pth''))))"

definition periodic_calls :: "bool \<Rightarrow> string \<Rightarrow> string \<Rightarrow> event list" where
  \<comment> \<open>the calls of a periodic save that ran to its end\<close>
  "periodic_calls dir_exists mdir pth_name =
     (if dir_exists then [] else [Makedirs mdir]) @
     [TorchSave (osp_join mdir pth_name), SymlinkForce pth_name (osp_join mdir ''latest.pth'')]"

subsection \<open>Variant A\<close>

record state_A =
  early_stop_cnt :: int
  best_score_A :: pyfloat

definition pth_name_A :: "nat \<Rightarrow> string \<Rightarrow> string" where
  \<comment> \<open>\<open>f'{epoch+1}epoch_{now.strftime("%y%m%d_%H%M%S")}.pth'\<close>\<close>
  "pth_name_A epoch stamp = str_nat (epoch + 1) @ ''epoch_'' @ stamp @ ''.pth''"

definition epoch_A :: "args_A \<Rightarrow> int \<Rightarrow> epoch_env \<Rightarrow> nat \<Rightarrow> state_A \<Rightarrow> (state_A \<times> bool) io" where
  "epoch_A args num_batches ev epoch st =
     io_bind (io_of (train_batches ev)) (\<lambda>epoch_loss.
     \<comment> \<open>the print divides \<open>epoch_loss\<close> by \<open>num_batches\<close>\<close>
     io_bind (if num_batches = 0 then io_raise ZeroDivisionError else io_return ()) (\<lambda>_.
     io_bind
       (if py_gt (best_score_A st) epoch_loss then
          io_bind (ext_call (raises ev) (TorchSave (osp_join (model_dir args) ''best_model.pth'')))
            (\<lambda>_. io_return (st\<lparr>best_score_A := epoch_loss\<rparr>))
        else io_return (st\<lparr>early_stop_cnt := early_stop_cnt st + 1\<rparr>)) (\<lambda>st1.
     if early_stop_cnt st1 > early_stop args then io_return (st1, True)
     else
       io_bind (io_of (py_mod (int epoch + 1) (save_interval args))) (\<lambda>m.
       io_bind
         (if m = 0 then periodic_save ev (model_dir args) (pth_name_A epoch (now ev))
          else io_return ()) (\<lambda>_.
       io_return (st1, False))))))"

definition device_A :: "env \<Rightarrow> string" where
  \<comment> \<open>variant A overwrites its \<open>device\<close> argument\<close>
  "device_A env = (if cuda_available env then ''cuda:0'' else ''cpu'')"

definition setup_A :: "env \<Rightarrow> args_A \<Rightarrow> int io" where
  \<comment> \<open>the lines before the loop; the value is \<open>num_batches\<close>\<close>
  "setup_A env args =
     io_bind (ext_calls (setup_raises env)
       [TorchManualSeed (seed args), CudaManualSeed (seed args), CudaManualSeedAll (seed args),
        NpRandomSeed (seed args), RandomSeed (seed args),
        SceneTextDataset (data_dir args) ''train'' (image_size args) (input_size args),
        EASTDataset]) (\<lambda>_.
     io_bind (io_of (py_ceil_div (int (dataset_len env ''train'')) (batch_size args)))
       (\<lambda>num_batches.
     io_bind (ext_calls (setup_raises env)
       [NpRandomSeed (seed args), DataLoader ''train'' (batch_size args),
        TorchDevice (device_A env), EAST, ModelTo (device_A env), AdamW (learning_rate args),
        MultiStepLR (max_epoch args div 2), ModelTrain]) (\<lambda>_.
     io_return num_batches)))"

definition do_training_A :: "env \<Rightarrow> args_A \<Rightarrow> state_A epoch_rec list io" where
  "do_training_A env args =
     io_bind (setup_A env args) (\<lambda>num_batches.
     io_return
       (for_epochs (\<lambda>epoch. epoch_A args num_batches (at_epoch env epoch) epoch)
          (nat (max_epoch args)) 0 \<lparr>early_stop_cnt = 0, best_score_A = Fin 9999\<rparr>))"

subsection \<open>Variant B\<close>

record state_B =
  stop_cnt :: int
  best_score_B :: pyfloat

definition run_name :: "string \<Rightarrow> string" where
  \<comment> \<open>\<open>(wandb_name.replace(" ","_")).lower()\<close>\<close>
  "run_name name = lower (replace_space name)"

definition pth_name_B :: "string \<Rightarrow> nat \<Rightarrow> string \<Rightarrow> string" where
  "pth_name_B name epoch stamp =
     run_name name @ ''_'' @ str_nat (epoch + 1) @ ''epoch_'' @ stamp @ ''.pth''"

definition best_pth_name :: "string \<Rightarrow> string" where
  "best_pth_name name = run_name name @ ''_best_model.pth''"

definition epoch_B :: "args_B \<Rightarrow> int \<Rightarrow> epoch_env \<Rightarrow> nat \<Rightarrow> state_B \<Rightarrow> (state_B \<times> bool) io" where
  "epoch_B args train_num_batches ev epoch st =
     io_bind (io_of (train_batches ev)) (\<lambda>epoch_loss.
     \<comment> \<open>the print divides \<open>epoch_loss\<close> by \<open>train_num_batches\<close>\<close>
     io_bind (if train_num_batches = 0 then io_raise ZeroDivisionError else io_return ()) (\<lambda>_.
     io_bind
       (if use_val args then
          io_bind (io_of (py_mod (int epoch + 1) (val_interval args))) (\<lambda>m. io_return (m = 0))
        else io_return False) (\<lambda>validate.
     io_bind
       (if validate then
          io_bind (io_of (validation ev)) (\<lambda>f1_score.
          if py_lt (best_score_B st) f1_score then
            io_bind (ext_call (raises ev)
              (TorchSave (osp_join (model_dir args) (best_pth_name (wandb_name args))))) (\<lambda>_.
            io_bind (ext_call (raises ev)
              (SymlinkForce (best_pth_name (wandb_name args))
                 (osp_join (model_dir args) ''best_model.pth''))) (\<lambda>_.
            io_return (st\<lparr>best_score_B := f1_score, stop_cnt := 0\<rparr>)))
          else io_return (st\<lparr>stop_cnt := stop_cnt st + 1\<rparr>))
        else io_return st) (\<lambda>st1.
     io_bind (io_of (py_mod (int epoch + 1) (save_interval args))) (\<lambda>m.
     io_bind
       (if m = 0 then
          periodic_save ev (model_dir args) (pth_name_B (wandb_name args) epoch (now ev))
        else io_return ()) (\<lambda>_.
     io_return (st1, stop_cnt st1 > early_stop args)))))))"

definition setup_B :: "env \<Rightarrow> args_B \<Rightarrow> int io" where
  \<comment> \<open>the lines before the loop; the value is \<open>train_num_batches\<close>\<close>
  "setup_B env args =
     io_bind (ext_calls (setup_raises env)
       [TorchManualSeed (seed args), CudaManualSeed (seed args), CudaManualSeedAll (seed args),
        NpRandomSeed (seed args), RandomSeed (seed args),
        SceneTextDataset (data_dir args) ''train'' (image_size args) (input_size args),
        EASTDataset]) (\<lambda>_.
     io_bind (io_of (py_ceil_div (int (dataset_len env ''train'')) (batch_size args)))
       (\<lambda>train_num_batches.
     io_bind (ext_calls (setup_raises env)
       [NpRandomSeed (seed args), DataLoader ''train'' (batch_size args),
        SceneTextDataset (data_dir args) ''val'' (image_size args) (input_size args)]) (\<lambda>_.
     io_bind (io_of (py_ceil_div (int (dataset_len env ''val'')) (batch_size args)))
       (\<lambda>val_num_batches.
     io_bind (ext_calls (setup_raises env)
       [DataLoader ''val'' 1, EAST, ModelTo (device args), AdamW (learning_rate args),
        MultiStepLR (max_epoch args div 2)]) (\<lambda>_.
     io_return train_num_batches)))))"

definition do_training_B :: "env \<Rightarrow> args_B \<Rightarrow> state_B epoch_rec list io" where
  "do_training_B env args =
     io_bind (setup_B env args) (\<lambda>train_num_batches.
     io_return
       (for_epochs (\<lambda>epoch. epoch_B args train_num_batches (at_epoch env epoch) epoch)
          (nat (max_epoch args)) 0 \<lparr>stop_cnt = 0, best_score_B = Fin 0\<rparr>))"

text \<open>An environment in which no call raises; the losses and scores of the epochs are given.\<close>

definition quiet_epoch :: "pyfloat \<Rightarrow> pyfloat \<Rightarrow> epoch_env" where
  "quiet_epoch loss f1 =
     \<lparr>train_batches = Inr loss, validation = Inr f1, model_dir_exists = True,
      now = ''230101_120000'', raises = (\<lambda>c. None)\<rparr>"

definition quiet_env :: "(nat \<Rightarrow> pyfloat) \<Rightarrow> (nat \<Rightarrow> pyfloat) \<Rightarrow> env" where
  "quiet_env loss f1 =
     \<lparr>setup_raises = (\<lambda>c. None), cuda_available = False, dataset_len = (\<lambda>split. 100),
      at_epoch = (\<lambda>epoch. quiet_epoch (loss epoch) (f1 epoch))\<rparr>"

text \<open>
  The epochs in which variant B enters its validation branch,
  \<open>if use_val and (epoch + 1) % val_interval == 0:\<close> (with \<open>val_interval = 0\<close> the
  test raises and no branch is entered).
\<close>

definition validates :: "args_B \<Rightarrow> nat \<Rightarrow> bool" where
  "validates args epoch \<longleftrightarrow>
     use_val args \<and> val_interval args \<noteq> 0 \<and> (int epoch + 1) mod val_interval args = 0"

subsection \<open>Runs to evaluate\<close>

text \<open>
  Three epochs of variant A with the losses 2, 3 and 4 and a periodic save at every epoch,
  and the records such a run is expected to leave: a best checkpoint in the first epoch
  only, a periodic checkpoint in each, a stall counter of 2 at the end, and no early stop.
\<close>

definition scenario_env :: env where
  "scenario_env = quiet_env (\<lambda>epoch. Fin ([2, 3, 4] ! epoch)) (\<lambda>epoch. Fin 0)"

definition scenario_args_A :: args_A where
  "scenario_args_A = default_args_A\<lparr>max_epoch := 3, save_interval := 1\<rparr>"

definition scenario_A :: "state_A epoch_rec list" where
  "scenario_A =
     [\<lparr>rec_epoch = 0, rec_before = \<lparr>early_stop_cnt = 0, best_score_A = Fin 9999\<rparr>,
       rec_events =
         [TorchSave ''trained_models/best_model.pth'',
          TorchSave ''trained_models/1epoch_230101_120000.pth'',
          SymlinkForce ''1epoch_230101_120000.pth'' ''trained_models/latest.pth''],
       rec_result = Inr (\<lparr>early_stop_cnt = 0, best_score_A = Fin 2\<rparr>, False)\<rparr>,
      \<lparr>rec_epoch = 1, rec_before = \<lparr>early_stop_cnt = 0, best_score_A = Fin 2\<rparr>,
       rec_events =
         [TorchSave ''trained_models/2epoch_230101_120000.pth'',
          SymlinkForce ''2epoch_230101_120000.pth'' ''trained_models/latest.pth''],
       rec_result = Inr (\<lparr>early_stop_cnt = 1, best_score_A = Fin 2\<rparr>, False)\<rparr>,
      \<lparr>rec_epoch = 2, rec_before = \<lparr>early_stop_cnt = 1, best_score_A = Fin 2\<rparr>,
       rec_events =
         [TorchSave ''trained_models/3epoch_230101_120000.pth'',
          SymlinkForce ''3epoch_230101_120000.pth'' ''trained_models/latest.pth''],
       rec_result = Inr (\<lparr>early_stop_cnt = 2, best_score_A = Fin 2\<rparr>, False)\<rparr>]"

text \<open>
  Three epochs of variant B with the F1 scores 0.5, 0.4 and 0.6, validated at every epoch,
  with a periodic save every second epoch, and the records such a run is expected to leave.
\<close>

definition f1_scores :: "nat \<Rightarrow> pyfloat" where
  "f1_scores epoch = Fin ([1 / 2, 2 / 5, 3 / 5] ! epoch)"

definition scenario_env_B :: env where
  "scenario_env_B = quiet_env (\<lambda>epoch. Fin 1) f1_scores"

definition scenario_args_B :: args_B where
  "scenario_args_B = default_args_B\<lparr>max_epoch := 3, save_interval := 2\<rparr>"

definition scenario_B :: "state_B epoch_rec list" where
  "scenario_B =
     [\<lparr>rec_epoch = 0, rec_before = \<lparr>stop_cnt = 0, best_score_B = Fin 0\<rparr>,
       rec_events =
         [TorchSave ''trained_models/unnamed_test_best_model.pth'',
          SymlinkForce ''unnamed_test_best_model.pth'' ''trained_models/best_model.pth''],
       rec_result = Inr (\<lparr>stop_cnt = 0, best_score_B = Fin (1 / 2)\<rparr>, False)\<rparr>,
      \<lparr>rec_epoch = 1, rec_before = \<lparr>stop_cnt = 0, best_score_B = Fin (1 / 2)\<rparr>,
       rec_events =
         [TorchSave ''trained_models/unnamed_test_2epoch_230101_120000.pth'',
          SymlinkForce ''unnamed_test_2epoch_230101_120000.pth'' ''trained_models/latest.pth''],
       rec_result = Inr (\<lparr>stop_cnt = 1, best_score_B = Fin (1 / 2)\<rparr>, False)\<rparr>,
      \<lparr>rec_epoch = 2, rec_before = \<lparr>stop_cnt = 1, best_score_B = Fin (1 / 2)\<rparr>,
       rec_events =
         [TorchSave ''trained_models/unnamed_test_best_model.pth'',
          SymlinkForce ''unnamed_test_best_model.pth'' ''trained_models/best_model.pth''],
       rec_result = Inr (\<lparr>stop_cnt = 0, best_score_B = Fin (3 / 5)\<rparr>, False)\<rparr>]"

text \<open>
  The same run with a patience of 0: the second epoch does not improve and the loop breaks.
\<close>

definition impatient_args_B :: args_B where
  "impatient_args_B = default_args_B\<lparr>max_epoch := 3, save_interval := 2, early_stop := 0\<rparr>"

definition impatient_B :: "state_B epoch_rec list" where
  "impatient_B =
     [\<lparr>rec_epoch = 0, rec_before = \<lparr>stop_cnt = 0, best_score_B = Fin 0\<rparr>,
       rec_events =
         [TorchSave ''trained_models/unnamed_test_best_model.pth'',
          SymlinkForce ''unnamed_test_best_model.pth'' ''trained_models/best_model.pth''],
       rec_result = Inr (\<lparr>stop_cnt = 0, best_score_B = Fin (1 / 2)\<rparr>, False)\<rparr>,
      \<lparr>rec_epoch = 1, rec_before = \<lparr>stop_cnt = 0, best_score_B = Fin (1 / 2)\<rparr>,
       rec_events =
         [TorchSave ''trained_models/unnamed_test_2epoch_230101_120000.pth'',
          SymlinkForce ''unnamed_test_2epoch_230101_120000.pth'' ''trained_models/latest.pth''],
       rec_result = Inr (\<lparr>stop_cnt = 1, best_score_B = Fin (1 / 2)\<rparr>, True)\<rparr>]"

text \<open>
  A negative patience, and validation every second epoch only.
\<close>

definition negative_patience_B :: args_B where
  "negative_patience_B = default_args_B\<lparr>max_epoch := 3, val_interval := 2, early_stop := - 1\<rparr>"

text \<open>
  Variant A with a patience of 0, a periodic save every second epoch, and the losses 5, 6
  and 4.
\<close>

definition impatient_args_A :: args_A where
  "impatient_args_A = default_args_A\<lparr>max_epoch := 3, save_interval := 2, early_stop := 0\<rparr>"

definition losses_5_6_4 :: "nat \<Rightarrow> pyfloat" where
  "losses_5_6_4 epoch = Fin ([5, 6, 4] ! epoch)"

text \<open>
  The call that builds the validation data set in variant B, the calls \<open>do_training\<close>
  makes before it, and an environment in which that call alone raises.
\<close>

definition val_dataset :: "args_B \<Rightarrow> event" where
  "val_dataset args = SceneTextDataset (data_dir args) ''val'' (image_size args) (input_size args)"

definition calls_before_val :: "args_B \<Rightarrow> event list" where
  "calls_before_val args =
     [TorchManualSeed (seed args), CudaManualSeed (seed args), CudaManualSeedAll (seed args),
      NpRandomSeed (seed args), RandomSeed (seed args),
      SceneTextDataset (data_dir args) ''train'' (image_size args) (input_size args),
      EASTDataset, NpRandomSeed (seed args), DataLoader ''train'' (batch_size args)]"

definition missing_val_env :: env where
  "missing_val_env =
     \<lparr>setup_raises = (\<lambda>c. if c = val_dataset default_args_B then Some (Raised ''FileNotFoundError'')
                           else None),
      cuda_available = False, dataset_len = (\<lambda>split. 100),
      at_epoch = (\<lambda>epoch. quiet_epoch (Fin 1) (Fin 0))\<rparr>"

section \<open>Properties of \<open>str2bool\<close>\<close>

lemma str2bool_str:
  "str2bool (PyStr s) =
     (if lower s \<in> set true_strings then Inr True
      else if lower s \<in> set false_strings then Inr False
      else Inl (NameError ''argparse''))"
  by (simp add: str2bool_def)

lemma true_false_disjoint: "x \<in> set false_strings \<Longrightarrow> x \<notin> set true_strings"
  unfolding true_strings_def false_strings_def by auto

text \<open>
  C10. \<open>str2bool\<close> returns a bool unchanged; a string whose lowercased form is one of
  yes, true, t, y, 1 gives \<open>True\<close>, one of no, false, f, n, 0 gives \<open>False\<close>, and for
  every other string no value is returned: an exception is raised.
\<close>

theorem str2bool_cases:
  "str2bool (PyBool b) = Inr b
   \<and> (lower s \<in> set true_strings \<longrightarrow> str2bool (PyStr s) = Inr True)
   \<and> (lower s \<in> set false_strings \<longrightarrow> str2bool (PyStr s) = Inr False)
   \<and> (lower s \<notin> set true_strings \<union> set false_strings \<longrightarrow> (\<exists>e. str2bool (PyStr s) = Inl e))"
proof (intro conjI impI)
  show "str2bool (PyBool b) = Inr b" by (simp add: str2bool_def)
next
  assume "lower s \<in> set true_strings"
  then show "str2bool (PyStr s) = Inr True" by (simp only: str2bool_str if_True)
next
  assume n: "lower s \<in> set false_strings"
  then have "lower s \<notin> set true_strings" by (rule true_false_disjoint)
  with n show "str2bool (PyStr s) = Inr False" by (simp only: str2bool_str if_True if_False)
next
  assume "lower s \<notin> set true_strings \<union> set false_strings"
  then have "lower s \<notin> set true_strings" "lower s \<notin> set false_strings"
    by blast+
  then have "str2bool (PyStr s) = Inl (NameError ''argparse'')"
    by (simp only: str2bool_str if_False)
  then show "\<exists>e. str2bool (PyStr s) = Inl e" ..
qed

theorem str2bool_cases_witness:
  "str2bool (PyBool False) = Inr False
   \<and> lower ''YeS'' \<in> set true_strings \<and> str2bool (PyStr ''YeS'') = Inr True
   \<and> lower ''F'' \<in> set false_strings \<and> str2bool (PyStr ''F'') = Inr False
   \<and> lower ''maybe'' \<notin> set true_strings \<union> set false_strings
   \<and> (\<exists>e. str2bool (PyStr ''maybe'') = Inl e)"
proof -
  have y: "lower ''YeS'' \<in> set true_strings"
    by (simp add: lower_def lower_char_def true_strings_def)
  have n: "lower ''F'' \<in> set false_strings"
    by (simp add: lower_def lower_char_def false_strings_def)
  have m: "lower ''maybe'' \<notin> set true_strings \<union> set false_strings"
    by (simp add: lower_def lower_char_def true_strings_def false_strings_def)
  note a = str2bool_cases [of False "''YeS''"]
  note b = str2bool_cases [of False "''F''"]
  note c = str2bool_cases [of False "''maybe''"]
  from a have 1: "str2bool (PyBool False) = Inr False" by (rule conjunct1)
  from a y have 2: "str2bool (PyStr ''YeS'') = Inr True" by blast
  from b n have 3: "str2bool (PyStr ''F'') = Inr False" by blast
  from c m have 4: "\<exists>e. str2bool (PyStr ''maybe'') = Inl e" by blast
  from 1 2 3 4 y n m show ?thesis by (intro conjI)
qed

section \<open>Properties of \<open>parse_args\<close>\<close>

text \<open>
  C6. In both variants \<open>parse_args\<close> fails with the \<open>ValueError\<close> on \<open>input_size\<close>
  exactly when \<open>input_size % 32 != 0\<close>, and returns the parsed configuration for every
  \<open>input_size\<close> that is a multiple of 32 (variant B possibly with \<open>use_val\<close> reset).
\<close>

theorem parse_args_input_size:
  "(parse_args_A a = Inl input_size_error \<longleftrightarrow> input_size a mod 32 \<noteq> 0)
   \<and> (input_size a mod 32 = 0 \<longrightarrow> parse_args_A a = Inr a)
   \<and> (snd (parse_args_B isfile b) = Inl input_size_error \<longleftrightarrow> input_size b mod 32 \<noteq> 0)
   \<and> (input_size b mod 32 = 0 \<longrightarrow>
        snd (parse_args_B isfile b) = Inr b \<or> snd (parse_args_B isfile b) = Inr (b\<lparr>use_val := False\<rparr>))"
  by (simp add: parse_args_A_def parse_args_B_def)

theorem parse_args_input_size_witness:
  "input_size default_args_A mod 32 = 0
   \<and> parse_args_A default_args_A = Inr default_args_A
   \<and> input_size (default_args_A\<lparr>input_size := 500\<rparr>) mod 32 \<noteq> 0
   \<and> parse_args_A (default_args_A\<lparr>input_size := 500\<rparr>) = Inl input_size_error
   \<and> input_size default_args_B mod 32 = 0
   \<and> snd (parse_args_B (\<lambda>p. True) default_args_B) = Inr default_args_B
   \<and> input_size (default_args_B\<lparr>input_size := -16\<rparr>) mod 32 \<noteq> 0
   \<and> snd (parse_args_B (\<lambda>p. True) (default_args_B\<lparr>input_size := -16\<rparr>)) = Inl input_size_error"
proof -
  have 1: "input_size default_args_A mod 32 = 0" by (simp add: default_args_A_def)
  have 2: "input_size (default_args_A\<lparr>input_size := 500\<rparr>) mod 32 \<noteq> 0" by simp
  have 3: "input_size default_args_B mod 32 = 0" by (simp add: default_args_B_def)
  have 4: "input_size (default_args_B\<lparr>input_size := -16\<rparr>) mod 32 \<noteq> 0" by simp
  have 5: "snd (parse_args_B (\<lambda>p. True) default_args_B) \<noteq> Inr (default_args_B\<lparr>use_val := False\<rparr>)"
    by (simp add: parse_args_B_def default_args_B_def)
  note A = parse_args_input_size [where a = default_args_A and b = default_args_B and isfile = "\<lambda>p. True"]
  note B = parse_args_input_size [where a = "default_args_A\<lparr>input_size := 500\<rparr>"
        and b = "default_args_B\<lparr>input_size := -16\<rparr>" and isfile = "\<lambda>p. True"]
  from A 1 have a1: "parse_args_A default_args_A = Inr default_args_A" by simp
  from A 3 5 have a2: "snd (parse_args_B (\<lambda>p. True) default_args_B) = Inr default_args_B" by simp
  from B 2 have b1: "parse_args_A (default_args_A\<lparr>input_size := 500\<rparr>) = Inl input_size_error" by simp
  from B 4 have b2: "snd (parse_args_B (\<lambda>p. True) (default_args_B\<lparr>input_size := -16\<rparr>)) = Inl input_size_error"
    by simp
  from 1 2 3 4 a1 a2 b1 b2 show ?thesis by simp
qed

text \<open>
  C7. In variant B a missing \<open>data_dir/ufo/val.json\<close> never makes \<open>parse_args\<close>
  fail (its only failure is the one on \<open>input_size\<close>): when \<open>use_val\<close> is true and the
  file is absent, the configuration is returned with \<open>use_val\<close> set to false and the two
  warning lines are printed; when the file exists (or \<open>use_val\<close> was false already) the
  configuration is returned unchanged and nothing is printed.
\<close>

theorem parse_args_B_use_val:
  "(\<forall>e. snd (parse_args_B isfile a) = Inl e \<longrightarrow> e = input_size_error \<and> input_size a mod 32 \<noteq> 0)
   \<and> (input_size a mod 32 = 0 \<longrightarrow>
        (use_val a \<and> \<not> isfile (osp_join (data_dir a) ''ufo/val.json'') \<longrightarrow>
           parse_args_B isfile a = (val_json_warning, Inr (a\<lparr>use_val := False\<rparr>)))
      \<and> (isfile (osp_join (data_dir a) ''ufo/val.json'') \<or> \<not> use_val a \<longrightarrow>
           parse_args_B isfile a = ([], Inr a)))"
  by (auto simp add: parse_args_B_def)

theorem parse_args_B_use_val_witness:
  "input_size default_args_B mod 32 = 0 \<and> use_val default_args_B
   \<and> parse_args_B (\<lambda>p. False) default_args_B
       = (val_json_warning, Inr (default_args_B\<lparr>use_val := False\<rparr>))
   \<and> parse_args_B (\<lambda>p. True) default_args_B = ([], Inr default_args_B)
   \<and> snd (parse_args_B (\<lambda>p. False) (default_args_B\<lparr>input_size := 100\<rparr>)) = Inl input_size_error
   \<and> input_size (default_args_B\<lparr>input_size := 100\<rparr>) mod 32 \<noteq> 0"
proof -
  have i: "input_size default_args_B mod 32 = 0" and u: "use_val default_args_B"
    by (simp_all add: default_args_B_def)
  have e: "snd (parse_args_B (\<lambda>p. False) (default_args_B\<lparr>input_size := 100\<rparr>)) = Inl input_size_error"
    by (simp add: parse_args_B_def)
  note A = parse_args_B_use_val [where isfile = "\<lambda>p. False" and a = default_args_B]
  note B = parse_args_B_use_val [where isfile = "\<lambda>p. True" and a = default_args_B]
  note C = parse_args_B_use_val [where isfile = "\<lambda>p. False" and a = "default_args_B\<lparr>input_size := 100\<rparr>"]
  from A i u have a: "parse_args_B (\<lambda>p. False) default_args_B
       = (val_json_warning, Inr (default_args_B\<lparr>use_val := False\<rparr>))" by blast
  from B i have b: "parse_args_B (\<lambda>p. True) default_args_B = ([], Inr default_args_B)" by blast
  from C [THEN conjunct1, THEN spec, THEN mp, OF e]
  have c: "input_size (default_args_B\<lparr>input_size := 100\<rparr>) mod 32 \<noteq> 0" by (rule conjunct2)
  from i u a b c e show ?thesis by (intro conjI)
qed

section \<open>Properties of \<open>symlink_force\<close>\<close>

lemma symlink_force_created:
  "slink t l w = (None, w1) \<Longrightarrow> symlink_force slink unlink t l w = (None, w1)"
  by (simp add: symlink_force_def)

lemma symlink_force_exists_removed:
  "slink t l w = (Some (OSError EEXIST), w1) \<Longrightarrow> unlink l w1 = (None, w2) \<Longrightarrow>
   symlink_force slink unlink t l w = slink t l w2"
  by (simp add: symlink_force_def)

lemma symlink_force_exists_remove_fails:
  "slink t l w = (Some (OSError EEXIST), w1) \<Longrightarrow> unlink l w1 = (Some e', w2) \<Longrightarrow>
   symlink_force slink unlink t l w = (Some e', w2)"
  by (simp add: symlink_force_def)

lemma symlink_force_other_error:
  "slink t l w = (Some e, w1) \<Longrightarrow> e \<noteq> OSError EEXIST \<Longrightarrow>
   symlink_force slink unlink t l w = (Some e, w1)"
  by (simp add: symlink_force_def)

lemma os_symlink_free:
  "entries s l = None \<Longrightarrow> dir_error s l = None \<Longrightarrow>
   os_symlink t l s =
     (None, s\<lparr>syscalls := syscalls s @ [Symlink t l], entries := (entries s)(l \<mapsto> SymlinkTo t)\<rparr>)"
  by (simp add: os_symlink_def)

lemma os_symlink_taken:
  "entries s l = Some n \<Longrightarrow>
   os_symlink t l s = (Some (OSError EEXIST), s\<lparr>syscalls := syscalls s @ [Symlink t l]\<rparr>)"
  by (simp add: os_symlink_def)

lemma os_remove_entry:
  "entries s l = Some n \<Longrightarrow> n \<noteq> Directory \<Longrightarrow> dir_error s l = None \<Longrightarrow>
   os_remove l s = (None, s\<lparr>syscalls := syscalls s @ [Remove l], entries := (entries s)(l := None)\<rparr>)"
  by (simp add: os_remove_def)

lemma symlink_force_free:
  assumes "entries s l = None" "dir_error s l = None"
  shows "symlink_force os_symlink os_remove t l s =
     (None, s\<lparr>syscalls := syscalls s @ [Symlink t l], entries := (entries s)(l \<mapsto> SymlinkTo t)\<rparr>)"
  using assms by (simp add: symlink_force_def os_symlink_free)

lemma symlink_force_replace:
  assumes e: "entries s l = Some n" and n: "n \<noteq> Directory" and d: "dir_error s l = None"
  shows "symlink_force os_symlink os_remove t l s =
     (None, s\<lparr>syscalls := syscalls s @ [Symlink t l, Remove l, Symlink t l],
               entries := (entries s)(l \<mapsto> SymlinkTo t)\<rparr>)"
proof -
  let ?s1 = "s\<lparr>syscalls := syscalls s @ [Symlink t l]\<rparr>"
  let ?s2 = "?s1\<lparr>syscalls := syscalls ?s1 @ [Remove l], entries := (entries ?s1)(l := None)\<rparr>"
  have 1: "os_symlink t l s = (Some (OSError EEXIST), ?s1)" by (rule os_symlink_taken [OF e])
  have 2: "os_remove l ?s1 = (None, ?s2)" by (rule os_remove_entry [of _ _ n]) (simp_all add: e n d)
  have 3: "os_symlink t l ?s2 =
     (None, ?s2\<lparr>syscalls := syscalls ?s2 @ [Symlink t l], entries := (entries ?s2)(l \<mapsto> SymlinkTo t)\<rparr>)"
    by (rule os_symlink_free) (simp_all add: d)
  have "symlink_force os_symlink os_remove t l s = os_symlink t l ?s2"
    by (rule symlink_force_exists_removed [where slink = os_symlink and unlink = os_remove, OF 1 2])
  with 3 show ?thesis by simp
qed

lemma symlink_force_twice:
  assumes d: "dir_error s l = None" and n: "entries s l \<noteq> Some Directory"
  shows "\<exists>s1 s2. symlink_force os_symlink os_remove t1 l s = (None, s1)
           \<and> symlink_force os_symlink os_remove t2 l s1 = (None, s2)
           \<and> entries s2 = (entries s)(l \<mapsto> SymlinkTo t2)
           \<and> syscalls s2 = syscalls s1 @ [Symlink t2 l, Remove l, Symlink t2 l]"
proof -
  obtain s1 where 1: "symlink_force os_symlink os_remove t1 l s = (None, s1)"
    and e1: "entries s1 = (entries s)(l \<mapsto> SymlinkTo t1)" and d1: "dir_error s1 = dir_error s"
  proof (cases "entries s l")
    case None
    from symlink_force_free [OF None d, of t1] that show ?thesis by simp
  next
    case (Some nd)
    with n have "nd \<noteq> Directory" by simp
    from symlink_force_replace [OF Some this d, of t1] that show ?thesis by simp
  qed
  from e1 have "entries s1 l = Some (SymlinkTo t1)" by simp
  from symlink_force_replace [OF this _ , of t2] d d1
  have "symlink_force os_symlink os_remove t2 l s1 =
     (None, s1\<lparr>syscalls := syscalls s1 @ [Symlink t2 l, Remove l, Symlink t2 l],
               entries := (entries s1)(l \<mapsto> SymlinkTo t2)\<rparr>)" by simp
  with 1 e1 show ?thesis by simp
qed

text \<open>
  C8. \<open>symlink_force\<close> returns at once when \<open>os.symlink\<close> succeeds, which it does when
  nothing exists at the link name; when \<open>os.symlink\<close> fails with \<open>EEXIST\<close> it removes
  the link name and calls \<open>os.symlink\<close> once more, the outcome of that call (or the failure
  of the removal) being the outcome of the function; any other error of the first call
  propagates unchanged. So two calls in a row on a link name that holds no directory, in a
  directory that can be written, both succeed and leave the link pointing at the second
  target.
\<close>

theorem symlink_force_contract:
  "(slink t l w = (None, w1) \<longrightarrow> symlink_force slink unlink t l w = (None, w1))
   \<and> (slink t l w = (Some (OSError EEXIST), w1) \<and> unlink l w1 = (None, w2) \<longrightarrow>
        symlink_force slink unlink t l w = slink t l w2)
   \<and> (slink t l w = (Some (OSError EEXIST), w1) \<and> unlink l w1 = (Some e', w2) \<longrightarrow>
        symlink_force slink unlink t l w = (Some e', w2))
   \<and> (slink t l w = (Some e, w1) \<and> e \<noteq> OSError EEXIST \<longrightarrow>
        symlink_force slink unlink t l w = (Some e, w1))
   \<and> (entries s p = None \<and> dir_error s p = None \<longrightarrow>
        symlink_force os_symlink os_remove a p s =
          (None, s\<lparr>syscalls := syscalls s @ [Symlink a p],
                    entries := (entries s)(p \<mapsto> SymlinkTo a)\<rparr>))
   \<and> (dir_error s p = None \<and> entries s p \<noteq> Some Directory \<longrightarrow>
        (\<exists>s1 s2. symlink_force os_symlink os_remove a p s = (None, s1)
           \<and> symlink_force os_symlink os_remove b p s1 = (None, s2)
           \<and> entries s2 = (entries s)(p \<mapsto> SymlinkTo b)
           \<and> syscalls s2 = syscalls s1 @ [Symlink b p, Remove p, Symlink b p]))"
proof (intro conjI impI)
  assume "slink t l w = (None, w1)"
  then show "symlink_force slink unlink t l w = (None, w1)"
    by (rule symlink_force_created)
next
  assume "slink t l w = (Some (OSError EEXIST), w1) \<and> unlink l w1 = (None, w2)"
  then show "symlink_force slink unlink t l w = slink t l w2"
    by (simp add: symlink_force_def)
next
  assume "slink t l w = (Some (OSError EEXIST), w1) \<and> unlink l w1 = (Some e', w2)"
  then show "symlink_force slink unlink t l w = (Some e', w2)"
    by (simp add: symlink_force_def)
next
  assume "slink t l w = (Some e, w1) \<and> e \<noteq> OSError EEXIST"
  then show "symlink_force slink unlink t l w = (Some e, w1)"
    by (simp add: symlink_force_def)
next
  assume "entries s p = None \<and> dir_error s p = None"
  then show "symlink_force os_symlink os_remove a p s =
          (None, s\<lparr>syscalls := syscalls s @ [Symlink a p],
                    entries := (entries s)(p \<mapsto> SymlinkTo a)\<rparr>)"
    by (simp add: symlink_force_free)
next
  assume "dir_error s p = None \<and> entries s p \<noteq> Some Directory"
  then show "\<exists>s1 s2. symlink_force os_symlink os_remove a p s = (None, s1)
           \<and> symlink_force os_symlink os_remove b p s1 = (None, s2)
           \<and> entries s2 = (entries s)(p \<mapsto> SymlinkTo b)
           \<and> syscalls s2 = syscalls s1 @ [Symlink b p, Remove p, Symlink b p]"
    using symlink_force_twice [of s p a b] by simp
qed

theorem symlink_force_contract_witness:
  "os_symlink ''1.pth'' ''latest.pth'' no_files
     = (None, \<lparr>entries = [''latest.pth'' \<mapsto> SymlinkTo ''1.pth''], dir_error = (\<lambda>p. None),
               syscalls = [Symlink ''1.pth'' ''latest.pth'']\<rparr>)
   \<and> symlink_force os_symlink os_remove ''1.pth'' ''latest.pth'' no_files
     = (None, \<lparr>entries = [''latest.pth'' \<mapsto> SymlinkTo ''1.pth''], dir_error = (\<lambda>p. None),
               syscalls = [Symlink ''1.pth'' ''latest.pth'']\<rparr>)
   \<and> os_symlink ''1.pth'' ''latest.pth'' a_directory
     = (Some (OSError EEXIST), a_directory\<lparr>syscalls := [Symlink ''1.pth'' ''latest.pth'']\<rparr>)
   \<and> os_remove ''latest.pth'' (a_directory\<lparr>syscalls := [Symlink ''1.pth'' ''latest.pth'']\<rparr>)
     = (Some (OSError EISDIR),
        a_directory\<lparr>syscalls := [Symlink ''1.pth'' ''latest.pth'', Remove ''latest.pth'']\<rparr>)
   \<and> symlink_force os_symlink os_remove ''1.pth'' ''latest.pth'' a_directory
     = (Some (OSError EISDIR),
        a_directory\<lparr>syscalls := [Symlink ''1.pth'' ''latest.pth'', Remove ''latest.pth'']\<rparr>)
   \<and> os_symlink ''1.pth'' ''latest.pth'' no_access
     = (Some (OSError EACCES), no_access\<lparr>syscalls := [Symlink ''1.pth'' ''latest.pth'']\<rparr>)
   \<and> OSError EACCES \<noteq> OSError EEXIST
   \<and> symlink_force os_symlink os_remove ''1.pth'' ''latest.pth'' no_access
     = (Some (OSError EACCES), no_access\<lparr>syscalls := [Symlink ''1.pth'' ''latest.pth'']\<rparr>)
   \<and> dir_error no_files ''latest.pth'' = None \<and> entries no_files ''latest.pth'' = None
   \<and> entries no_files ''latest.pth'' \<noteq> Some Directory
   \<and> (\<exists>s1 s2. symlink_force os_symlink os_remove ''1.pth'' ''latest.pth'' no_files = (None, s1)
           \<and> symlink_force os_symlink os_remove ''2.pth'' ''latest.pth'' s1 = (None, s2)
           \<and> entries s2 = (entries no_files)(''latest.pth'' \<mapsto> SymlinkTo ''2.pth'')
           \<and> syscalls s2 = syscalls s1 @
                [Symlink ''2.pth'' ''latest.pth'', Remove ''latest.pth'',
                 Symlink ''2.pth'' ''latest.pth''])"
proof -
  let ?s1 = "\<lparr>entries = [''latest.pth'' \<mapsto> SymlinkTo ''1.pth''], dir_error = (\<lambda>p. None),
               syscalls = [Symlink ''1.pth'' ''latest.pth'']\<rparr>"
  let ?d1 = "a_directory\<lparr>syscalls := [Symlink ''1.pth'' ''latest.pth'']\<rparr>"
  let ?d2 = "a_directory\<lparr>syscalls := [Symlink ''1.pth'' ''latest.pth'', Remove ''latest.pth'']\<rparr>"
  let ?n1 = "no_access\<lparr>syscalls := [Symlink ''1.pth'' ''latest.pth'']\<rparr>"
  have h1: "os_symlink ''1.pth'' ''latest.pth'' no_files = (None, ?s1)"
    by (simp add: os_symlink_def no_files_def)
  have h2: "os_symlink ''1.pth'' ''latest.pth'' a_directory = (Some (OSError EEXIST), ?d1)"
    by (simp add: os_symlink_def a_directory_def)
  have h3: "os_remove ''latest.pth'' ?d1 = (Some (OSError EISDIR), ?d2)"
    by (simp add: os_remove_def a_directory_def)
  have h4: "os_symlink ''1.pth'' ''latest.pth'' no_access = (Some (OSError EACCES), ?n1)"
    by (simp add: os_symlink_def no_access_def)
  have h5: "OSError EACCES \<noteq> OSError EEXIST" by simp
  have h6: "dir_error no_files ''latest.pth'' = None" "entries no_files ''latest.pth'' = None"
    "entries no_files ''latest.pth'' \<noteq> Some Directory"
    by (simp_all add: no_files_def)
  note A = symlink_force_contract [where slink = os_symlink and unlink = os_remove
      and t = "''1.pth''" and l = "''latest.pth''" and w = no_files and ?w1.0 = ?s1
      and s = no_files and p = "''latest.pth''" and a = "''1.pth''" and b = "''2.pth''"]
  note B = symlink_force_contract [where slink = os_symlink and unlink = os_remove
      and t = "''1.pth''" and l = "''latest.pth''" and w = a_directory and ?w1.0 = ?d1
      and ?w2.0 = ?d2 and e' = "OSError EISDIR"]
  note C = symlink_force_contract [where slink = os_symlink and unlink = os_remove
      and t = "''1.pth''" and l = "''latest.pth''" and w = no_access and ?w1.0 = ?n1
      and e = "OSError EACCES"]
  from A [THEN conjunct1, THEN mp, OF h1]
  have c1: "symlink_force os_symlink os_remove ''1.pth'' ''latest.pth'' no_files = (None, ?s1)" .
  from B [THEN conjunct2, THEN conjunct2, THEN conjunct1, THEN mp, OF conjI, OF h2 h3]
  have c3: "symlink_force os_symlink os_remove ''1.pth'' ''latest.pth'' a_directory
     = (Some (OSError EISDIR), ?d2)" .
  from C [THEN conjunct2, THEN conjunct2, THEN conjunct2, THEN conjunct1, THEN mp, OF conjI, OF h4 h5]
  have c4: "symlink_force os_symlink os_remove ''1.pth'' ''latest.pth'' no_access
     = (Some (OSError EACCES), ?n1)" .
  from A [THEN conjunct2, THEN conjunct2, THEN conjunct2, THEN conjunct2, THEN conjunct2, THEN mp,
      OF conjI, OF h6(1) h6(3)]
  have c6: "\<exists>s1 s2. symlink_force os_symlink os_remove ''1.pth'' ''latest.pth'' no_files = (None, s1)
           \<and> symlink_force os_symlink os_remove ''2.pth'' ''latest.pth'' s1 = (None, s2)
           \<and> entries s2 = (entries no_files)(''latest.pth'' \<mapsto> SymlinkTo ''2.pth'')
           \<and> syscalls s2 = syscalls s1 @
                [Symlink ''2.pth'' ''latest.pth'', Remove ''latest.pth'',
                 Symlink ''2.pth'' ''latest.pth'']" .
  from h1 c1 h2 h3 c3 h4 h5 c4 h6 c6 show ?thesis by (intro conjI)
qed

section \<open>Properties of \<open>do_training\<close>\<close>

subsection \<open>The actions\<close>

lemma io_bind_Inr:
  assumes "io_bind m f = (evs, Inr y)"
  obtains e1 x e2 where "m = (e1, Inr x)" "f x = (e2, Inr y)" "evs = e1 @ e2"
  using assms by (auto simp: io_bind_def split: prod.splits sum.splits)

lemma io_bind_value [simp]: "io_bind (e1, Inr x) f = (e1 @ fst (f x), snd (f x))"
  by (simp add: io_bind_def split: prod.splits)

lemma io_bind_exn [simp]: "io_bind (e1, Inl e) f = (e1, Inl e)"
  by (simp add: io_bind_def)

lemma io_of_Inr: "io_of r = (evs, Inr x) \<longleftrightarrow> evs = [] \<and> r = Inr x"
  by (auto simp: io_of_def)

lemma io_return_Inr: "io_return x = (evs, Inr y) \<longleftrightarrow> evs = [] \<and> y = x"
  by (auto simp: io_return_def)

lemma io_raise_Inr: "io_raise e \<noteq> (evs, Inr y)"
  by (simp add: io_raise_def)

lemma ext_call_Inr: "ext_call rs c = (evs, Inr u) \<longleftrightarrow> evs = [c] \<and> rs c = None"
  by (auto simp: ext_call_def split: option.splits)

lemma py_mod_Inr: "py_mod a b = Inr m \<longleftrightarrow> b \<noteq> 0 \<and> m = a mod b"
  by (auto simp: py_mod_def)

lemma periodic_save_Inr:
  assumes "periodic_save ev mdir p = (evs, Inr u)"
  shows "evs = periodic_calls (model_dir_exists ev) mdir p"
  using assms unfolding periodic_save_def periodic_calls_def
  by (auto elim!: io_bind_Inr simp: ext_call_Inr io_return_Inr split: if_splits)

lemma periodic_save_quiet:
  assumes "\<And>c. raises ev c = None"
  shows "periodic_save ev mdir p = (periodic_calls (model_dir_exists ev) mdir p, Inr ())"
  using assms by (simp add: periodic_save_def periodic_calls_def ext_call_def io_return_def)

subsection \<open>The loop\<close>

lemma for_epochs_body:
  "r \<in> set (for_epochs body n e st) \<Longrightarrow>
   body (rec_epoch r) (rec_before r) = (rec_events r, rec_result r)"
proof (induction n arbitrary: e st)
  case 0
  then show ?case by simp
next
  case (Suc n)
  obtain evs res where b: "body e st = (evs, res)" by (cases "body e st")
  show ?case
  proof (cases "r = \<lparr>rec_epoch = e, rec_before = st, rec_events = evs, rec_result = res\<rparr>")
    case True
    with b show ?thesis by simp
  next
    case False
    with Suc.prems b obtain st' where "res = Inr (st', False)"
      and "r \<in> set (for_epochs body n (Suc e) st')"
      by (auto split: sum.splits prod.splits bool.splits)
    then show ?thesis using Suc.IH by blast
  qed
qed

lemma for_epochs_length: "length (for_epochs body n e st) \<le> n"
  by (induction n arbitrary: e st) (auto split: sum.splits prod.splits bool.splits)

lemma for_epochs_epoch:
  "i < length (for_epochs body n e st) \<Longrightarrow> rec_epoch (for_epochs body n e st ! i) = e + i"
proof (induction n arbitrary: e st i)
  case 0
  then show ?case by simp
next
  case (Suc n)
  show ?case
  proof (cases i)
    case 0
    then show ?thesis by (simp split: prod.splits)
  next
    case (Suc j)
    with Suc.prems Suc.IH show ?thesis
      by (auto split: sum.splits prod.splits bool.splits)
  qed
qed

lemma for_epochs_first:
  "0 < length (for_epochs body n e st) \<Longrightarrow> rec_before (for_epochs body n e st ! 0) = st"
  by (cases n) (auto split: prod.splits)

lemma for_epochs_next:
  "Suc i < length (for_epochs body n e st) \<Longrightarrow>
   rec_result (for_epochs body n e st ! i) = Inr (rec_before (for_epochs body n e st ! Suc i), False)"
proof (induction n arbitrary: e st i)
  case 0
  then show ?case by simp
next
  case (Suc n)
  obtain evs res where b: "body e st = (evs, res)" by (cases "body e st")
  from Suc.prems b obtain st' where res: "res = Inr (st', False)"
    by (auto split: sum.splits prod.splits bool.splits)
  show ?case
  proof (cases i)
    case 0
    with Suc.prems b res show ?thesis
      using for_epochs_first [of body n "Suc e" st'] by simp
  next
    case (Suc j)
    with Suc.prems b res Suc.IH [of j "Suc e" st'] show ?thesis by simp
  qed
qed

subsection \<open>One epoch\<close>

lemma epoch_A_train:
  assumes "epoch_A args nb ev e st = (evs, Inr r)"
  shows "\<exists>loss. train_batches ev = Inr loss"
  using assms unfolding epoch_A_def
  by (cases "train_batches ev") (simp_all add: io_of_def)

lemma epoch_A_completed:
  assumes "epoch_A args nb ev e st = (evs, Inr (st', brk))" and "train_batches ev = Inr loss"
  shows "nb \<noteq> 0
     \<and> st' = (if py_gt (best_score_A st) loss then st\<lparr>best_score_A := loss\<rparr>
              else st\<lparr>early_stop_cnt := early_stop_cnt st + 1\<rparr>)
     \<and> brk = (early_stop args < early_stop_cnt st')
     \<and> (\<not> brk \<longrightarrow> save_interval args \<noteq> 0)
     \<and> evs = (if py_gt (best_score_A st) loss
               then [TorchSave (osp_join (model_dir args) ''best_model.pth'')] else []) @
              (if \<not> brk \<and> (int e + 1) mod save_interval args = 0
               then periodic_calls (model_dir_exists ev) (model_dir args) (pth_name_A e (now ev))
               else [])"
  using assms unfolding epoch_A_def
  by (auto simp: io_of_def io_return_def io_raise_def ext_call_def py_mod_def
      periodic_save_def periodic_calls_def split: if_splits option.splits)

lemma epoch_A_quiet:
  assumes "train_batches ev = Inr loss" "nb \<noteq> 0" "save_interval args \<noteq> 0"
    "\<And>c. raises ev c = None"
  shows "\<exists>evs st'. epoch_A args nb ev e st = (evs, Inr (st', early_stop args < early_stop_cnt st'))"
  using assms unfolding epoch_A_def
  by (simp add: io_of_def io_return_def io_raise_def ext_call_def py_mod_def periodic_save_quiet)

lemma epoch_B_train:
  assumes "epoch_B args nb ev e st = (evs, Inr r)"
  shows "\<exists>loss. train_batches ev = Inr loss"
  using assms unfolding epoch_B_def
  by (cases "train_batches ev") (simp_all add: io_of_def)

lemma epoch_B_validation:
  assumes "epoch_B args nb ev e st = (evs, Inr r)" and "validates args e"
  shows "\<exists>f1. validation ev = Inr f1"
proof -
  from assms(1) obtain loss where l: "train_batches ev = Inr loss"
    by (auto dest: epoch_B_train)
  from assms(2) have v: "use_val args" "(int e + 1) mod val_interval args = 0" "val_interval args \<noteq> 0"
    by (simp_all add: validates_def)
  show ?thesis
  proof (cases "validation ev")
    case (Inl x)
    with assms(1) l v show ?thesis
      unfolding epoch_B_def
      by (simp add: io_of_def io_return_def io_raise_def py_mod_def split: if_splits)
  next
    case (Inr f1)
    then show ?thesis by blast
  qed
qed

lemma epoch_B_validated:
  assumes "epoch_B args nb ev e st = (evs, Inr (st', brk))" and "validates args e"
    and "train_batches ev = Inr loss" and "validation ev = Inr f1"
  shows "nb \<noteq> 0 \<and> save_interval args \<noteq> 0
     \<and> brk = (early_stop args < stop_cnt st')
     \<and> st' = (if py_lt (best_score_B st) f1 then st\<lparr>best_score_B := f1, stop_cnt := 0\<rparr>
              else st\<lparr>stop_cnt := stop_cnt st + 1\<rparr>)
     \<and> evs = (if py_lt (best_score_B st) f1
               then [TorchSave (osp_join (model_dir args) (best_pth_name (wandb_name args))),
                     SymlinkForce (best_pth_name (wandb_name args))
                       (osp_join (model_dir args) ''best_model.pth'')]
               else []) @
              (if (int e + 1) mod save_interval args = 0
               then periodic_calls (model_dir_exists ev) (model_dir args)
                      (pth_name_B (wandb_name args) e (now ev))
               else [])"
proof -
  from assms(2) have v: "use_val args" "(int e + 1) mod val_interval args = 0" "val_interval args \<noteq> 0"
    by (simp_all add: validates_def)
  from assms(1,3,4) v show ?thesis
    unfolding epoch_B_def
    by (auto simp: io_of_def io_return_def io_raise_def ext_call_def py_mod_def
        periodic_save_def periodic_calls_def split: if_splits option.splits)
qed

lemma epoch_B_not_validated:
  assumes "epoch_B args nb ev e st = (evs, Inr (st', brk))" and "\<not> validates args e"
    and "train_batches ev = Inr loss"
  shows "nb \<noteq> 0 \<and> save_interval args \<noteq> 0
     \<and> brk = (early_stop args < stop_cnt st')
     \<and> st' = st
     \<and> evs = (if (int e + 1) mod save_interval args = 0
               then periodic_calls (model_dir_exists ev) (model_dir args)
                      (pth_name_B (wandb_name args) e (now ev))
               else [])"
proof (cases "use_val args")
  case True
  with assms(2) have "val_interval args = 0 \<or> (int e + 1) mod val_interval args \<noteq> 0"
    by (simp add: validates_def)
  with assms(1,3) True show ?thesis
    unfolding epoch_B_def
    by (auto simp: io_of_def io_return_def io_raise_def ext_call_def py_mod_def
        periodic_save_def periodic_calls_def split: if_splits option.splits)
next
  case False
  with assms(1,3) show ?thesis
    unfolding epoch_B_def
    by (auto simp: io_of_def io_return_def io_raise_def ext_call_def py_mod_def
        periodic_save_def periodic_calls_def split: if_splits option.splits)
qed

subsection \<open>Comparing floats\<close>

lemma py_lt_not_NaN: "py_lt a b \<Longrightarrow> a \<noteq> NaN \<and> b \<noteq> NaN"
  by (cases a; cases b) simp_all

lemma py_le_refl: "a \<noteq> NaN \<Longrightarrow> py_le a a"
  by (cases a) (simp_all add: py_le_def)

lemma py_lt_imp_le: "py_lt a b \<Longrightarrow> py_le a b"
  by (cases a; cases b) (simp_all add: py_le_def)

lemma py_le_trans: "py_le a b \<Longrightarrow> py_le b c \<Longrightarrow> py_le a c"
  by (cases a; cases b; cases c) (simp_all add: py_le_def)

subsection \<open>Runs\<close>

lemma for_epochs_nth_body:
  assumes "i < length (for_epochs body n e st)"
  shows "body (e + i) (rec_before (for_epochs body n e st ! i)) =
     (rec_events (for_epochs body n e st ! i), rec_result (for_epochs body n e st ! i))"
  using for_epochs_body [of "for_epochs body n e st ! i" body n e st] assms
  by (simp add: for_epochs_epoch)

lemma for_epochs_invariant:
  assumes init: "P st"
    and step: "\<And>e s evs s' brk. P s \<Longrightarrow> body e s = (evs, Inr (s', brk)) \<Longrightarrow> P s'"
  shows "i < length (for_epochs body n e st) \<Longrightarrow> P (rec_before (for_epochs body n e st ! i))"
proof (induction i)
  case 0
  with init show ?case by (simp add: for_epochs_first)
next
  case (Suc i)
  then have p: "P (rec_before (for_epochs body n e st ! i))" by simp
  from Suc.prems have i: "i < length (for_epochs body n e st)" by simp
  from for_epochs_nth_body [OF i] for_epochs_next [OF Suc.prems]
  have "body (e + i) (rec_before (for_epochs body n e st ! i)) =
     (rec_events (for_epochs body n e st ! i),
      Inr (rec_before (for_epochs body n e st ! Suc i), False))" by simp
  with p show ?case by (rule step)
qed

lemma for_epochs_chain:
  assumes step: "\<And>e s evs s' brk. body e s = (evs, Inr (s', brk)) \<Longrightarrow> R s s'"
    and refl: "\<And>s. R s s"
    and trans: "\<And>a b c. R a b \<Longrightarrow> R b c \<Longrightarrow> R a c"
  shows "j \<le> i \<Longrightarrow> i < length (for_epochs body n e st) \<Longrightarrow>
     R (rec_before (for_epochs body n e st ! j)) (rec_before (for_epochs body n e st ! i))"
proof (induction i)
  case 0
  then show ?case by (simp add: refl)
next
  case (Suc i)
  show ?case
  proof (cases "j = Suc i")
    case True
    then show ?thesis by (simp add: refl)
  next
    case False
    with Suc.prems have ji: "j \<le> i" and i: "i < length (for_epochs body n e st)" by simp_all
    from Suc.IH [OF ji i]
    have 1: "R (rec_before (for_epochs body n e st ! j)) (rec_before (for_epochs body n e st ! i))" .
    from for_epochs_nth_body [OF i] for_epochs_next [OF Suc.prems(2)]
    have "body (e + i) (rec_before (for_epochs body n e st ! i)) =
       (rec_events (for_epochs body n e st ! i),
        Inr (rec_before (for_epochs body n e st ! Suc i), False))" by simp
    then have 2: "R (rec_before (for_epochs body n e st ! i))
       (rec_before (for_epochs body n e st ! Suc i))" by (rule step)
    from 1 2 show ?thesis by (rule trans)
  qed
qed

lemma do_training_A_recs:
  assumes "snd (do_training_A env args) = Inr recs"
  obtains nb where
    "recs = for_epochs (\<lambda>epoch. epoch_A args nb (at_epoch env epoch) epoch)
       (nat (max_epoch args)) 0 \<lparr>early_stop_cnt = 0, best_score_A = Fin 9999\<rparr>"
proof -
  obtain calls where "do_training_A env args = (calls, Inr recs)"
    using assms by (cases "do_training_A env args") simp
  then show ?thesis
    using that unfolding do_training_A_def
    by (auto elim!: io_bind_Inr simp: io_return_Inr)
qed

lemma do_training_B_recs:
  assumes "snd (do_training_B env args) = Inr recs"
  obtains nb where
    "recs = for_epochs (\<lambda>epoch. epoch_B args nb (at_epoch env epoch) epoch)
       (nat (max_epoch args)) 0 \<lparr>stop_cnt = 0, best_score_B = Fin 0\<rparr>"
proof -
  obtain calls where "do_training_B env args = (calls, Inr recs)"
    using assms by (cases "do_training_B env args") simp
  then show ?thesis
    using that unfolding do_training_B_def
    by (auto elim!: io_bind_Inr simp: io_return_Inr)
qed

lemma run_step:
  assumes "recs = for_epochs body n 0 st0" and "i < length recs"
  shows "body i (rec_before (recs ! i)) = (rec_events (recs ! i), rec_result (recs ! i))"
  using assms for_epochs_nth_body [of i body n 0 st0] by simp

lemma run_first:
  assumes "recs = for_epochs body n 0 st0" and "i < length recs" and "i = 0"
  shows "rec_before (recs ! i) = st0"
  using assms for_epochs_first [of body n 0 st0] by simp

lemma run_previous:
  assumes "recs = for_epochs body n 0 st0" and "i < length recs" and "0 < i"
  shows "rec_result (recs ! (i - 1)) = Inr (rec_before (recs ! i), False)"
  using assms for_epochs_next [of "i - 1" body n 0 st0] by simp

lemma run_invariant:
  assumes "recs = for_epochs body n 0 st0" and "i < length recs"
    and "P st0"
    and "\<And>e s evs s' brk. P s \<Longrightarrow> body e s = (evs, Inr (s', brk)) \<Longrightarrow> P s'"
  shows "P (rec_before (recs ! i))"
  using assms(1,2) for_epochs_invariant [of P st0 body i n 0, OF assms(3,4)] by simp

lemma run_chain:
  assumes "recs = for_epochs body n 0 st0" and "i < length recs" and "j \<le> i"
    and "\<And>e s evs s' brk. body e s = (evs, Inr (s', brk)) \<Longrightarrow> R s s'"
    and "\<And>s. R s s"
    and "\<And>a b c. R a b \<Longrightarrow> R b c \<Longrightarrow> R a c"
  shows "R (rec_before (recs ! j)) (rec_before (recs ! i))"
  using assms(1,2) for_epochs_chain [of body R j i n 0 st0, OF assms(4,5,6) assms(3)] by simp

lemma setup_A_quiet:
  "batch_size args \<noteq> 0 \<Longrightarrow>
   snd (setup_A (quiet_env l f) args) = Inr (- (- 100 div batch_size args))"
  by (simp add: setup_A_def quiet_env_def io_of_def io_return_def ext_call_def py_ceil_div_def)

lemma for_epochs_3:
  "for_epochs body 3 e st = for_epochs body (Suc (Suc (Suc 0))) e st"
  by (simp add: numeral_3_eq_3)

lemma snd_io_bind: "snd m = Inr x \<Longrightarrow> snd (io_bind m f) = snd (f x)"
  by (cases m) (simp add: io_bind_def split: prod.splits)

lemma do_training_A_quiet:
  "batch_size args \<noteq> 0 \<Longrightarrow>
   snd (do_training_A (quiet_env l f) args) =
     Inr (for_epochs (\<lambda>epoch. epoch_A args (- (- 100 div batch_size args))
                        (quiet_epoch (l epoch) (f epoch)) epoch)
            (nat (max_epoch args)) 0 \<lparr>early_stop_cnt = 0, best_score_A = Fin 9999\<rparr>)"
  unfolding do_training_A_def
  by (simp add: snd_io_bind [OF setup_A_quiet] io_return_def) (simp add: quiet_env_def)

lemma epoch_A_quiet_eval:
  "epoch_A args nb (quiet_epoch loss f1) e st =
     (if nb = 0 then ([], Inl ZeroDivisionError)
      else let st1 = (if py_lt loss (best_score_A st) then st\<lparr>best_score_A := loss\<rparr>
                      else st\<lparr>early_stop_cnt := early_stop_cnt st + 1\<rparr>);
               saved = (if py_lt loss (best_score_A st)
                        then [TorchSave (osp_join (model_dir args) ''best_model.pth'')] else [])
           in if early_stop args < early_stop_cnt st1 then (saved, Inr (st1, True))
              else if save_interval args = 0 then (saved, Inl ZeroDivisionError)
              else if (int e + 1) mod save_interval args = 0
              then (saved @ periodic_calls True (model_dir args) (pth_name_A e ''230101_120000''),
                    Inr (st1, False))
              else (saved, Inr (st1, False)))"
  by (simp add: epoch_A_def quiet_epoch_def io_of_def io_return_def io_raise_def ext_call_def
      py_mod_def py_gt_def periodic_save_def periodic_calls_def Let_def)

lemma scenario_A_run:
  "snd (do_training_A scenario_env scenario_args_A) = Inr scenario_A"
  unfolding scenario_env_def
  by (simp add: do_training_A_quiet scenario_args_A_def default_args_A_def for_epochs_3
      epoch_A_quiet_eval periodic_calls_def pth_name_A_def str_nat.simps osp_join_def
      scenario_A_def)

subsection \<open>Variant A\<close>

lemma epoch_A_step:
  assumes "epoch_A args nb ev e st = (evs, Inr (st', brk))"
  obtains loss where "train_batches ev = Inr loss"
    and "st' = (if py_gt (best_score_A st) loss then st\<lparr>best_score_A := loss\<rparr>
              else st\<lparr>early_stop_cnt := early_stop_cnt st + 1\<rparr>)"
    and "py_gt (best_score_A st) loss \<longrightarrow>
           TorchSave (osp_join (model_dir args) ''best_model.pth'') \<in> set evs"
proof -
  from epoch_A_train [OF assms] obtain loss where l: "train_batches ev = Inr loss" ..
  from epoch_A_completed [OF assms l] l that show ?thesis by simp
qed

lemma epoch_A_cnt_mono:
  assumes "epoch_A args nb ev e st = (evs, Inr (st', brk))"
  shows "early_stop_cnt st \<le> early_stop_cnt st'"
  using assms by (rule epoch_A_step) (simp split: if_splits)

text \<open>
  C3. In variant A the stall counter \<open>early_stop_cnt\<close> is never reset. For every epoch
  \<open>i\<close> of a run that ran to its end, the counter after the epoch is the counter before it
  plus 1 when the epoch did not improve (\<open>best_score > epoch_loss\<close> false) and plus 0 when
  it did; the counter before the epoch is at least the counter before every earlier one;
  it starts at 0, and the state before an epoch is the state the previous epoch left.
\<close>

theorem stall_counter_A:
  assumes run: "snd (do_training_A env args) = Inr recs"
    and i: "i < length recs"
    and res: "rec_result (recs ! i) = Inr (st', brk)"
  shows "(\<exists>loss. train_batches (at_epoch env i) = Inr loss
       \<and> early_stop_cnt st' = early_stop_cnt (rec_before (recs ! i))
            + (if py_gt (best_score_A (rec_before (recs ! i))) loss then 0 else 1))
     \<and> (\<forall>j\<le>i. early_stop_cnt (rec_before (recs ! j)) \<le> early_stop_cnt (rec_before (recs ! i)))
     \<and> early_stop_cnt (rec_before (recs ! i)) \<le> early_stop_cnt st'
     \<and> (i = 0 \<longrightarrow> early_stop_cnt (rec_before (recs ! i)) = 0)
     \<and> (0 < i \<longrightarrow> rec_result (recs ! (i - 1)) = Inr (rec_before (recs ! i), False))"
proof -
  from run obtain nb where recs:
    "recs = for_epochs (\<lambda>epoch. epoch_A args nb (at_epoch env epoch) epoch)
       (nat (max_epoch args)) 0 \<lparr>early_stop_cnt = 0, best_score_A = Fin 9999\<rparr>"
    by (rule do_training_A_recs)
  let ?body = "\<lambda>epoch. epoch_A args nb (at_epoch env epoch) epoch"
  from run_step [OF recs i] res
  have step: "epoch_A args nb (at_epoch env i) i (rec_before (recs ! i))
     = (rec_events (recs ! i), Inr (st', brk))" by simp
  from step obtain loss where l: "train_batches (at_epoch env i) = Inr loss"
    and st': "st' = (if py_gt (best_score_A (rec_before (recs ! i))) loss
                then (rec_before (recs ! i))\<lparr>best_score_A := loss\<rparr>
                else (rec_before (recs ! i))\<lparr>early_stop_cnt := early_stop_cnt (rec_before (recs ! i)) + 1\<rparr>)"
    by (rule epoch_A_step)
  from st' have cnt: "early_stop_cnt st' = early_stop_cnt (rec_before (recs ! i))
          + (if py_gt (best_score_A (rec_before (recs ! i))) loss then 0 else 1)" by simp
  have mono: "\<forall>j\<le>i. early_stop_cnt (rec_before (recs ! j)) \<le> early_stop_cnt (rec_before (recs ! i))"
  proof (intro allI impI)
    fix j assume j: "j \<le> i"
    show "early_stop_cnt (rec_before (recs ! j)) \<le> early_stop_cnt (rec_before (recs ! i))"
      by (rule run_chain [OF recs i j, where R = "\<lambda>a b. early_stop_cnt a \<le> early_stop_cnt b"])
         (auto dest: epoch_A_cnt_mono)
  qed
  from run_first [OF recs i]
  have first: "i = 0 \<longrightarrow> early_stop_cnt (rec_before (recs ! i)) = 0" by simp
  from run_previous [OF recs i]
  have prev: "0 < i \<longrightarrow> rec_result (recs ! (i - 1)) = Inr (rec_before (recs ! i), False)" by simp
  from l cnt have ex: "\<exists>loss. train_batches (at_epoch env i) = Inr loss
       \<and> early_stop_cnt st' = early_stop_cnt (rec_before (recs ! i))
            + (if py_gt (best_score_A (rec_before (recs ! i))) loss then 0 else 1)" by blast
  from cnt have le: "early_stop_cnt (rec_before (recs ! i)) \<le> early_stop_cnt st'" by simp
  from ex mono le first prev show ?thesis by (intro conjI)
qed

theorem stall_counter_A_witness:
  "snd (do_training_A scenario_env scenario_args_A) = Inr scenario_A
   \<and> 2 < length scenario_A
   \<and> rec_result (scenario_A ! 2) = Inr (\<lparr>early_stop_cnt = 2, best_score_A = Fin 2\<rparr>, False)
   \<and> train_batches (at_epoch scenario_env 2) = Inr (Fin 4)
   \<and> \<not> py_gt (best_score_A (rec_before (scenario_A ! 2))) (Fin 4)
   \<and> early_stop_cnt \<lparr>early_stop_cnt = 2, best_score_A = Fin 2\<rparr>
        = early_stop_cnt (rec_before (scenario_A ! 2)) + 1
   \<and> early_stop_cnt (rec_before (scenario_A ! 0)) \<le> early_stop_cnt (rec_before (scenario_A ! 2))
   \<and> early_stop_cnt (rec_before (scenario_A ! 1)) \<le> early_stop_cnt (rec_before (scenario_A ! 2))
   \<and> early_stop_cnt (rec_before (scenario_A ! 2))
        \<le> early_stop_cnt \<lparr>early_stop_cnt = 2, best_score_A = Fin 2\<rparr>
   \<and> rec_result (scenario_A ! 1) = Inr (rec_before (scenario_A ! 2), False)"
proof -
  have len: "2 < length scenario_A" by (simp add: scenario_A_def)
  have res: "rec_result (scenario_A ! 2) = Inr (\<lparr>early_stop_cnt = 2, best_score_A = Fin 2\<rparr>, False)"
    by (simp add: scenario_A_def)
  have l: "train_batches (at_epoch scenario_env 2) = Inr (Fin 4)"
    by (simp add: scenario_env_def quiet_env_def quiet_epoch_def)
  have ngt: "\<not> py_gt (best_score_A (rec_before (scenario_A ! 2))) (Fin 4)"
    by (simp add: scenario_A_def py_gt_def)
  note T = stall_counter_A [OF scenario_A_run len res]
  from T [THEN conjunct1] obtain loss where
    l': "train_batches (at_epoch scenario_env 2) = Inr loss"
    and cnt: "early_stop_cnt \<lparr>early_stop_cnt = 2, best_score_A = Fin 2\<rparr>
          = early_stop_cnt (rec_before (scenario_A ! 2))
          + (if py_gt (best_score_A (rec_before (scenario_A ! 2))) loss then 0 else 1)"
    by (elim exE conjE)
  from T [THEN conjunct2, THEN conjunct1]
  have mono: "\<forall>j\<le>2. early_stop_cnt (rec_before (scenario_A ! j))
            \<le> early_stop_cnt (rec_before (scenario_A ! 2))" .
  from T [THEN conjunct2, THEN conjunct2, THEN conjunct1]
  have le: "early_stop_cnt (rec_before (scenario_A ! 2))
          \<le> early_stop_cnt \<lparr>early_stop_cnt = 2, best_score_A = Fin 2\<rparr>" .
  from T [THEN conjunct2, THEN conjunct2, THEN conjunct2, THEN conjunct2]
  have prev: "(0::nat) < 2 \<longrightarrow>
          rec_result (scenario_A ! (2 - 1)) = Inr (rec_before (scenario_A ! 2), False)" .
  from l l' have "loss = Fin 4" by simp
  with cnt ngt have c: "early_stop_cnt \<lparr>early_stop_cnt = 2, best_score_A = Fin 2\<rparr>
        = early_stop_cnt (rec_before (scenario_A ! 2)) + 1" by simp
  from mono [THEN spec, of 0] have m0:
    "early_stop_cnt (rec_before (scenario_A ! 0)) \<le> early_stop_cnt (rec_before (scenario_A ! 2))"
    by simp
  from mono [THEN spec, of 1] have m1:
    "early_stop_cnt (rec_before (scenario_A ! 1)) \<le> early_stop_cnt (rec_before (scenario_A ! 2))"
    by simp
  from prev have p: "rec_result (scenario_A ! 1) = Inr (rec_before (scenario_A ! 2), False)"
    by simp
  from scenario_A_run len res l ngt c m0 m1 le p show ?thesis by (intro conjI)
qed

lemma epoch_A_best_mono:
  assumes "epoch_A args nb ev e st = (evs, Inr (st', brk))" and "best_score_A st \<noteq> NaN"
  shows "py_le (best_score_A st') (best_score_A st)"
  using assms(1)
proof (rule epoch_A_step)
  fix loss
  assume "st' = (if py_gt (best_score_A st) loss then st\<lparr>best_score_A := loss\<rparr>
              else st\<lparr>early_stop_cnt := early_stop_cnt st + 1\<rparr>)"
  with assms(2) show ?thesis
    by (auto simp: py_gt_def py_lt_imp_le py_le_refl)
qed

lemma epoch_A_best_not_NaN:
  assumes "best_score_A st \<noteq> NaN" and "epoch_A args nb ev e st = (evs, Inr (st', brk))"
  shows "best_score_A st' \<noteq> NaN"
  using epoch_A_best_mono [OF assms(2,1)] by (simp add: py_le_def)

text \<open>
  C5. In variant A \<open>best_score\<close> is non-increasing. For every epoch \<open>i\<close> of a run that
  ran to its end, \<open>best_score\<close> becomes the epoch loss when that is strictly lower and
  stays what it was otherwise; when it is strictly lower, \<open>torch.save\<close> is called on
  \<open>model_dir/best_model.pth\<close>; the value after the epoch is at most the value before, which
  is at most the value before every earlier epoch; it starts at 9999.
\<close>

theorem best_score_A_non_increasing:
  assumes run: "snd (do_training_A env args) = Inr recs"
    and i: "i < length recs"
    and res: "rec_result (recs ! i) = Inr (st', brk)"
  shows "(\<exists>loss. train_batches (at_epoch env i) = Inr loss
       \<and> best_score_A st' =
           (if py_lt loss (best_score_A (rec_before (recs ! i))) then loss
            else best_score_A (rec_before (recs ! i)))
       \<and> (py_lt loss (best_score_A (rec_before (recs ! i))) \<longrightarrow>
            TorchSave (osp_join (model_dir args) ''best_model.pth'') \<in> set (rec_events (recs ! i))))
     \<and> py_le (best_score_A st') (best_score_A (rec_before (recs ! i)))
     \<and> (\<forall>j\<le>i. py_le (best_score_A (rec_before (recs ! i))) (best_score_A (rec_before (recs ! j))))
     \<and> (i = 0 \<longrightarrow> best_score_A (rec_before (recs ! i)) = Fin 9999)
     \<and> (0 < i \<longrightarrow> rec_result (recs ! (i - 1)) = Inr (rec_before (recs ! i), False))"
proof -
  from run obtain nb where recs:
    "recs = for_epochs (\<lambda>epoch. epoch_A args nb (at_epoch env epoch) epoch)
       (nat (max_epoch args)) 0 \<lparr>early_stop_cnt = 0, best_score_A = Fin 9999\<rparr>"
    by (rule do_training_A_recs)
  have inv: "best_score_A (rec_before (recs ! k)) \<noteq> NaN" if "k < length recs" for k
    by (rule run_invariant [OF recs that, where P = "\<lambda>s. best_score_A s \<noteq> NaN"])
       (auto dest: epoch_A_best_not_NaN)
  from run_step [OF recs i] res
  have step: "epoch_A args nb (at_epoch env i) i (rec_before (recs ! i))
     = (rec_events (recs ! i), Inr (st', brk))" by simp
  from step obtain loss where l: "train_batches (at_epoch env i) = Inr loss"
    and st': "st' = (if py_gt (best_score_A (rec_before (recs ! i))) loss
                then (rec_before (recs ! i))\<lparr>best_score_A := loss\<rparr>
                else (rec_before (recs ! i))\<lparr>early_stop_cnt := early_stop_cnt (rec_before (recs ! i)) + 1\<rparr>)"
    and saved: "py_gt (best_score_A (rec_before (recs ! i))) loss \<longrightarrow>
           TorchSave (osp_join (model_dir args) ''best_model.pth'') \<in> set (rec_events (recs ! i))"
    by (rule epoch_A_step)
  from st' have best: "best_score_A st' =
         (if py_lt loss (best_score_A (rec_before (recs ! i))) then loss
          else best_score_A (rec_before (recs ! i)))" by (simp add: py_gt_def)
  from saved have saved': "py_lt loss (best_score_A (rec_before (recs ! i))) \<longrightarrow>
          TorchSave (osp_join (model_dir args) ''best_model.pth'') \<in> set (rec_events (recs ! i))"
    by (simp add: py_gt_def)
  from step inv [OF i] have le: "py_le (best_score_A st') (best_score_A (rec_before (recs ! i)))"
    by (rule epoch_A_best_mono)
  have mono: "\<forall>j\<le>i. py_le (best_score_A (rec_before (recs ! i))) (best_score_A (rec_before (recs ! j)))"
  proof (intro allI impI)
    fix j assume j: "j \<le> i"
    with i have "j < length recs" by simp
    then have nj: "best_score_A (rec_before (recs ! j)) \<noteq> NaN" by (rule inv)
    have "best_score_A (rec_before (recs ! j)) \<noteq> NaN \<longrightarrow>
      py_le (best_score_A (rec_before (recs ! i))) (best_score_A (rec_before (recs ! j)))"
    proof (rule run_chain [OF recs i j,
          where R = "\<lambda>a b. best_score_A a \<noteq> NaN \<longrightarrow> py_le (best_score_A b) (best_score_A a)"])
      show "best_score_A s \<noteq> NaN \<longrightarrow> py_le (best_score_A s') (best_score_A s)"
        if "epoch_A args nb (at_epoch env e) e s = (evs, Inr (s', b))" for e and s :: state_A and evs s' b
        using that by (auto dest: epoch_A_best_mono)
      show "best_score_A s \<noteq> NaN \<longrightarrow> py_le (best_score_A s) (best_score_A s)" for s :: state_A
        by (simp add: py_le_refl)
      show "best_score_A a \<noteq> NaN \<longrightarrow> py_le (best_score_A c) (best_score_A a)"
        if "best_score_A a \<noteq> NaN \<longrightarrow> py_le (best_score_A b) (best_score_A a)"
          and "best_score_A b \<noteq> NaN \<longrightarrow> py_le (best_score_A c) (best_score_A b)" for a b c :: state_A
      proof
        assume "best_score_A a \<noteq> NaN"
        with that(1) have ba: "py_le (best_score_A b) (best_score_A a)" by simp
        then have "best_score_A b \<noteq> NaN" by (simp add: py_le_def)
        with that(2) have "py_le (best_score_A c) (best_score_A b)" by simp
        then show "py_le (best_score_A c) (best_score_A a)" using ba by (rule py_le_trans)
      qed
    qed
    with nj show "py_le (best_score_A (rec_before (recs ! i))) (best_score_A (rec_before (recs ! j)))"
      by simp
  qed
  from run_first [OF recs i]
  have first: "i = 0 \<longrightarrow> best_score_A (rec_before (recs ! i)) = Fin 9999" by simp
  from run_previous [OF recs i]
  have prev: "0 < i \<longrightarrow> rec_result (recs ! (i - 1)) = Inr (rec_before (recs ! i), False)" by simp
  from l best saved' have ex: "\<exists>loss. train_batches (at_epoch env i) = Inr loss
       \<and> best_score_A st' =
           (if py_lt loss (best_score_A (rec_before (recs ! i))) then loss
            else best_score_A (rec_before (recs ! i)))
       \<and> (py_lt loss (best_score_A (rec_before (recs ! i))) \<longrightarrow>
            TorchSave (osp_join (model_dir args) ''best_model.pth'') \<in> set (rec_events (recs ! i)))"
    by blast
  from ex le mono first prev show ?thesis by (intro conjI)
qed

theorem best_score_A_non_increasing_witness:
  "snd (do_training_A scenario_env scenario_args_A) = Inr scenario_A
   \<and> 1 < length scenario_A
   \<and> rec_result (scenario_A ! 0) = Inr (\<lparr>early_stop_cnt = 0, best_score_A = Fin 2\<rparr>, False)
   \<and> rec_result (scenario_A ! 1) = Inr (\<lparr>early_stop_cnt = 1, best_score_A = Fin 2\<rparr>, False)
   \<and> train_batches (at_epoch scenario_env 0) = Inr (Fin 2)
   \<and> py_lt (Fin 2) (best_score_A (rec_before (scenario_A ! 0)))
   \<and> best_score_A \<lparr>early_stop_cnt = 0, best_score_A = Fin 2\<rparr> = Fin 2
   \<and> TorchSave (osp_join (model_dir scenario_args_A) ''best_model.pth'')
        \<in> set (rec_events (scenario_A ! 0))
   \<and> best_score_A (rec_before (scenario_A ! 0)) = Fin 9999
   \<and> py_le (best_score_A \<lparr>early_stop_cnt = 1, best_score_A = Fin 2\<rparr>)
        (best_score_A (rec_before (scenario_A ! 1)))
   \<and> py_le (best_score_A (rec_before (scenario_A ! 1))) (best_score_A (rec_before (scenario_A ! 0)))"
proof -
  have len: "1 < length scenario_A" and len0: "0 < length scenario_A"
    by (simp_all add: scenario_A_def)
  have res0: "rec_result (scenario_A ! 0) = Inr (\<lparr>early_stop_cnt = 0, best_score_A = Fin 2\<rparr>, False)"
    and res1: "rec_result (scenario_A ! 1) = Inr (\<lparr>early_stop_cnt = 1, best_score_A = Fin 2\<rparr>, False)"
    by (simp_all add: scenario_A_def)
  have l: "train_batches (at_epoch scenario_env 0) = Inr (Fin 2)"
    by (simp add: scenario_env_def quiet_env_def quiet_epoch_def)
  have lt: "py_lt (Fin 2) (best_score_A (rec_before (scenario_A ! 0)))"
    by (simp add: scenario_A_def)
  note T0 = best_score_A_non_increasing [OF scenario_A_run len0 res0]
  from T0 [THEN conjunct1] obtain loss where
    l': "train_batches (at_epoch scenario_env 0) = Inr loss"
    and best: "best_score_A \<lparr>early_stop_cnt = 0, best_score_A = Fin 2\<rparr> =
         (if py_lt loss (best_score_A (rec_before (scenario_A ! 0))) then loss
          else best_score_A (rec_before (scenario_A ! 0)))"
    and saved: "py_lt loss (best_score_A (rec_before (scenario_A ! 0))) \<longrightarrow>
          TorchSave (osp_join (model_dir scenario_args_A) ''best_model.pth'')
            \<in> set (rec_events (scenario_A ! 0))"
    by (elim exE conjE)
  from T0 [THEN conjunct2, THEN conjunct2, THEN conjunct2, THEN conjunct1]
  have first: "(0::nat) = 0 \<longrightarrow> best_score_A (rec_before (scenario_A ! 0)) = Fin 9999" .
  from l l' have loss: "loss = Fin 2" by simp
  from best loss lt have b: "best_score_A \<lparr>early_stop_cnt = 0, best_score_A = Fin 2\<rparr> = Fin 2"
    by simp
  from saved loss lt have s: "TorchSave (osp_join (model_dir scenario_args_A) ''best_model.pth'')
        \<in> set (rec_events (scenario_A ! 0))" by simp
  from first have f: "best_score_A (rec_before (scenario_A ! 0)) = Fin 9999" by simp
  note T1 = best_score_A_non_increasing [OF scenario_A_run len res1]
  from T1 [THEN conjunct2, THEN conjunct1]
  have le: "py_le (best_score_A \<lparr>early_stop_cnt = 1, best_score_A = Fin 2\<rparr>)
        (best_score_A (rec_before (scenario_A ! 1)))" .
  from T1 [THEN conjunct2, THEN conjunct2, THEN conjunct1]
  have mono: "\<forall>j\<le>1. py_le (best_score_A (rec_before (scenario_A ! 1)))
        (best_score_A (rec_before (scenario_A ! j)))" .
  from mono [THEN spec, of 0] have m:
    "py_le (best_score_A (rec_before (scenario_A ! 1))) (best_score_A (rec_before (scenario_A ! 0)))"
    by simp
  from scenario_A_run len res0 res1 l lt b s f le m show ?thesis by (intro conjI)
qed

subsection \<open>Variant B\<close>

lemma epoch_B_step:
  assumes "epoch_B args nb ev e st = (evs, Inr (st', brk))"
  shows "brk = (early_stop args < stop_cnt st')"
    and "validates args e \<longrightarrow>
      (\<exists>f1. validation ev = Inr f1
         \<and> st' = (if py_lt (best_score_B st) f1 then st\<lparr>best_score_B := f1, stop_cnt := 0\<rparr>
                  else st\<lparr>stop_cnt := stop_cnt st + 1\<rparr>))"
    and "\<not> validates args e \<longrightarrow> st' = st"
proof -
  from epoch_B_train [OF assms] obtain loss where l: "train_batches ev = Inr loss" ..
  show "brk = (early_stop args < stop_cnt st')"
    using epoch_B_validated [OF assms _ l] epoch_B_not_validated [OF assms _ l]
      epoch_B_validation [OF assms]
    by (cases "validates args e") auto
  show "validates args e \<longrightarrow>
      (\<exists>f1. validation ev = Inr f1
         \<and> st' = (if py_lt (best_score_B st) f1 then st\<lparr>best_score_B := f1, stop_cnt := 0\<rparr>
                  else st\<lparr>stop_cnt := stop_cnt st + 1\<rparr>))"
  proof
    assume v: "validates args e"
    from epoch_B_validation [OF assms v] obtain f1 where f: "validation ev = Inr f1" ..
    from epoch_B_validated [OF assms v l f] f
    show "\<exists>f1. validation ev = Inr f1
         \<and> st' = (if py_lt (best_score_B st) f1 then st\<lparr>best_score_B := f1, stop_cnt := 0\<rparr>
                  else st\<lparr>stop_cnt := stop_cnt st + 1\<rparr>)" by blast
  qed
  show "\<not> validates args e \<longrightarrow> st' = st"
    using epoch_B_not_validated [OF assms _ l] by blast
qed

lemma epoch_B_best_mono:
  assumes "epoch_B args nb ev e st = (evs, Inr (st', brk))" and "best_score_B st \<noteq> NaN"
  shows "py_le (best_score_B st) (best_score_B st')"
proof (cases "validates args e")
  case True
  with epoch_B_step(2) [OF assms(1)] obtain f1 where
    "st' = (if py_lt (best_score_B st) f1 then st\<lparr>best_score_B := f1, stop_cnt := 0\<rparr>
            else st\<lparr>stop_cnt := stop_cnt st + 1\<rparr>)" by blast
  with assms(2) show ?thesis by (auto simp: py_lt_imp_le py_le_refl)
next
  case False
  with epoch_B_step(3) [OF assms(1)] assms(2) show ?thesis by (simp add: py_le_refl)
qed

lemma epoch_B_invariant:
  assumes "best_score_B st \<noteq> NaN \<and> 0 \<le> stop_cnt st"
    and "epoch_B args nb ev e st = (evs, Inr (st', brk))"
  shows "best_score_B st' \<noteq> NaN \<and> 0 \<le> stop_cnt st'"
proof
  from epoch_B_best_mono [OF assms(2)] assms(1) show "best_score_B st' \<noteq> NaN"
    by (simp add: py_le_def)
  show "0 \<le> stop_cnt st'"
  proof (cases "validates args e")
    case True
    with epoch_B_step(2) [OF assms(2)] obtain f1 where
      "st' = (if py_lt (best_score_B st) f1 then st\<lparr>best_score_B := f1, stop_cnt := 0\<rparr>
              else st\<lparr>stop_cnt := stop_cnt st + 1\<rparr>)" by blast
    with assms(1) show ?thesis by (simp split: if_splits)
  next
    case False
    with epoch_B_step(3) [OF assms(2)] assms(1) show ?thesis by simp
  qed
qed

lemma setup_B_quiet:
  "batch_size args \<noteq> 0 \<Longrightarrow>
   snd (setup_B (quiet_env l f) args) = Inr (- (- 100 div batch_size args))"
  by (simp add: setup_B_def quiet_env_def io_of_def io_return_def ext_call_def py_ceil_div_def)

lemma do_training_B_quiet:
  "batch_size args \<noteq> 0 \<Longrightarrow>
   snd (do_training_B (quiet_env l f) args) =
     Inr (for_epochs (\<lambda>epoch. epoch_B args (- (- 100 div batch_size args))
                        (quiet_epoch (l epoch) (f epoch)) epoch)
            (nat (max_epoch args)) 0 \<lparr>stop_cnt = 0, best_score_B = Fin 0\<rparr>)"
  unfolding do_training_B_def
  by (simp add: snd_io_bind [OF setup_B_quiet] io_return_def) (simp add: quiet_env_def)

lemma epoch_B_quiet_eval:
  assumes "nb \<noteq> 0" "save_interval args \<noteq> 0" "use_val args \<longrightarrow> val_interval args \<noteq> 0"
  shows "epoch_B args nb (quiet_epoch loss f1) e st =
     (let improved = (validates args e \<and> py_lt (best_score_B st) f1);
          st1 = (if \<not> validates args e then st
                 else if improved then st\<lparr>best_score_B := f1, stop_cnt := 0\<rparr>
                 else st\<lparr>stop_cnt := stop_cnt st + 1\<rparr>)
      in ((if improved
           then [TorchSave (osp_join (model_dir args) (best_pth_name (wandb_name args))),
                 SymlinkForce (best_pth_name (wandb_name args))
                   (osp_join (model_dir args) ''best_model.pth'')]
           else []) @
          (if (int e + 1) mod save_interval args = 0
           then periodic_calls True (model_dir args) (pth_name_B (wandb_name args) e ''230101_120000'')
           else []),
          Inr (st1, early_stop args < stop_cnt st1)))"
  using assms
  by (simp add: epoch_B_def quiet_epoch_def io_of_def io_return_def io_raise_def ext_call_def
      py_mod_def periodic_save_def periodic_calls_def Let_def validates_def)

lemma scenario_B_run:
  "snd (do_training_B scenario_env_B scenario_args_B) = Inr scenario_B"
  unfolding scenario_env_B_def
  by (simp add: do_training_B_quiet scenario_args_B_def default_args_B_def for_epochs_3
      epoch_B_quiet_eval periodic_calls_def pth_name_B_def best_pth_name_def run_name_def
      lower_def lower_char_def replace_space_def str_nat.simps osp_join_def validates_def
      f1_scores_def scenario_B_def)

lemma impatient_B_run:
  "snd (do_training_B scenario_env_B impatient_args_B) = Inr impatient_B"
  unfolding scenario_env_B_def
  by (simp add: do_training_B_quiet impatient_args_B_def default_args_B_def for_epochs_3
      epoch_B_quiet_eval periodic_calls_def pth_name_B_def best_pth_name_def run_name_def
      lower_def lower_char_def replace_space_def str_nat.simps osp_join_def validates_def
      f1_scores_def impatient_B_def)

text \<open>
  C4. In variant B, for every epoch \<open>i\<close> of a run that ran to its end: when the epoch
  validates, \<open>best_score\<close> becomes the F1 score and \<open>stop_cnt\<close> becomes 0 if the score
  strictly exceeds \<open>best_score\<close>, and otherwise \<open>best_score\<close> stays and \<open>stop_cnt\<close> grows
  by exactly 1, so that \<open>stop_cnt\<close> is 0 after a validation epoch exactly when the epoch
  improved; an epoch that does not validate changes neither. \<open>best_score\<close> after the epoch
  is at least what it was before, which is at least what it was before every earlier epoch.
\<close>

theorem validation_state_B:
  assumes run: "snd (do_training_B env args) = Inr recs"
    and i: "i < length recs"
    and res: "rec_result (recs ! i) = Inr (st', brk)"
  shows "(validates args i \<longrightarrow>
           (\<exists>f1. validation (at_epoch env i) = Inr f1
              \<and> (py_lt (best_score_B (rec_before (recs ! i))) f1 \<longrightarrow>
                   best_score_B st' = f1 \<and> stop_cnt st' = 0)
              \<and> (\<not> py_lt (best_score_B (rec_before (recs ! i))) f1 \<longrightarrow>
                   best_score_B st' = best_score_B (rec_before (recs ! i))
                   \<and> stop_cnt st' = stop_cnt (rec_before (recs ! i)) + 1)
              \<and> (stop_cnt st' = 0 \<longleftrightarrow> py_lt (best_score_B (rec_before (recs ! i))) f1)))
     \<and> (\<not> validates args i \<longrightarrow> st' = rec_before (recs ! i))
     \<and> py_le (best_score_B (rec_before (recs ! i))) (best_score_B st')
     \<and> (\<forall>j\<le>i. py_le (best_score_B (rec_before (recs ! j))) (best_score_B (rec_before (recs ! i))))
     \<and> (i = 0 \<longrightarrow> rec_before (recs ! i) = \<lparr>stop_cnt = 0, best_score_B = Fin 0\<rparr>)
     \<and> (0 < i \<longrightarrow> rec_result (recs ! (i - 1)) = Inr (rec_before (recs ! i), False))"
proof -
  from run obtain nb where recs:
    "recs = for_epochs (\<lambda>epoch. epoch_B args nb (at_epoch env epoch) epoch)
       (nat (max_epoch args)) 0 \<lparr>stop_cnt = 0, best_score_B = Fin 0\<rparr>"
    by (rule do_training_B_recs)
  let ?st = "rec_before (recs ! i)"
  have inv: "best_score_B (rec_before (recs ! k)) \<noteq> NaN \<and> 0 \<le> stop_cnt (rec_before (recs ! k))"
    if "k < length recs" for k
  proof (rule run_invariant [OF recs that,
          where P = "\<lambda>s. best_score_B s \<noteq> NaN \<and> 0 \<le> stop_cnt s"])
    show "best_score_B \<lparr>stop_cnt = 0, best_score_B = Fin 0\<rparr> \<noteq> NaN
      \<and> 0 \<le> stop_cnt \<lparr>stop_cnt = 0, best_score_B = Fin 0\<rparr>" by simp
    show "best_score_B s' \<noteq> NaN \<and> 0 \<le> stop_cnt s'"
      if "best_score_B s \<noteq> NaN \<and> 0 \<le> stop_cnt s"
        and "epoch_B args nb (at_epoch env e) e s = (evs, Inr (s', b))"
      for e and s :: state_B and evs s' b
      using that by (rule epoch_B_invariant)
  qed
  from run_step [OF recs i] res
  have step: "epoch_B args nb (at_epoch env i) i ?st = (rec_events (recs ! i), Inr (st', brk))"
    by simp
  have val: "validates args i \<longrightarrow>
           (\<exists>f1. validation (at_epoch env i) = Inr f1
              \<and> (py_lt (best_score_B ?st) f1 \<longrightarrow> best_score_B st' = f1 \<and> stop_cnt st' = 0)
              \<and> (\<not> py_lt (best_score_B ?st) f1 \<longrightarrow>
                   best_score_B st' = best_score_B ?st \<and> stop_cnt st' = stop_cnt ?st + 1)
              \<and> (stop_cnt st' = 0 \<longleftrightarrow> py_lt (best_score_B ?st) f1))"
  proof
    assume "validates args i"
    with epoch_B_step(2) [OF step] obtain f1 where f: "validation (at_epoch env i) = Inr f1"
      and st': "st' = (if py_lt (best_score_B ?st) f1 then ?st\<lparr>best_score_B := f1, stop_cnt := 0\<rparr>
                  else ?st\<lparr>stop_cnt := stop_cnt ?st + 1\<rparr>)" by blast
    from inv [OF i] have "0 \<le> stop_cnt ?st" by simp
    with st' have "(py_lt (best_score_B ?st) f1 \<longrightarrow> best_score_B st' = f1 \<and> stop_cnt st' = 0)
              \<and> (\<not> py_lt (best_score_B ?st) f1 \<longrightarrow>
                   best_score_B st' = best_score_B ?st \<and> stop_cnt st' = stop_cnt ?st + 1)
              \<and> (stop_cnt st' = 0 \<longleftrightarrow> py_lt (best_score_B ?st) f1)"
      by (cases "py_lt (best_score_B ?st) f1") simp_all
    with f show "\<exists>f1. validation (at_epoch env i) = Inr f1
              \<and> (py_lt (best_score_B ?st) f1 \<longrightarrow> best_score_B st' = f1 \<and> stop_cnt st' = 0)
              \<and> (\<not> py_lt (best_score_B ?st) f1 \<longrightarrow>
                   best_score_B st' = best_score_B ?st \<and> stop_cnt st' = stop_cnt ?st + 1)
              \<and> (stop_cnt st' = 0 \<longleftrightarrow> py_lt (best_score_B ?st) f1)" by blast
  qed
  from epoch_B_step(3) [OF step] have noval: "\<not> validates args i \<longrightarrow> st' = ?st" .
  from inv [OF i] have "best_score_B ?st \<noteq> NaN" by simp
  with step have le: "py_le (best_score_B ?st) (best_score_B st')" by (rule epoch_B_best_mono)
  have mono: "\<forall>j\<le>i. py_le (best_score_B (rec_before (recs ! j))) (best_score_B ?st)"
  proof (intro allI impI)
    fix j assume j: "j \<le> i"
    with i have "j < length recs" by simp
    then have nj: "best_score_B (rec_before (recs ! j)) \<noteq> NaN" using inv by simp
    have "best_score_B (rec_before (recs ! j)) \<noteq> NaN \<longrightarrow>
      py_le (best_score_B (rec_before (recs ! j))) (best_score_B ?st)"
    proof (rule run_chain [OF recs i j,
          where R = "\<lambda>a b. best_score_B a \<noteq> NaN \<longrightarrow> py_le (best_score_B a) (best_score_B b)"])
      show "best_score_B s \<noteq> NaN \<longrightarrow> py_le (best_score_B s) (best_score_B s')"
        if "epoch_B args nb (at_epoch env e) e s = (evs, Inr (s', b))"
        for e and s :: state_B and evs s' b
        using that by (auto dest: epoch_B_best_mono)
      show "best_score_B s \<noteq> NaN \<longrightarrow> py_le (best_score_B s) (best_score_B s)" for s :: state_B
        by (simp add: py_le_refl)
      show "best_score_B a \<noteq> NaN \<longrightarrow> py_le (best_score_B a) (best_score_B c)"
        if "best_score_B a \<noteq> NaN \<longrightarrow> py_le (best_score_B a) (best_score_B b)"
          and "best_score_B b \<noteq> NaN \<longrightarrow> py_le (best_score_B b) (best_score_B c)"
        for a b c :: state_B
      proof
        assume "best_score_B a \<noteq> NaN"
        with that(1) have ab: "py_le (best_score_B a) (best_score_B b)" by simp
        then have "best_score_B b \<noteq> NaN" by (simp add: py_le_def)
        with that(2) have "py_le (best_score_B b) (best_score_B c)" by simp
        with ab show "py_le (best_score_B a) (best_score_B c)" by (rule py_le_trans)
      qed
    qed
    with nj show "py_le (best_score_B (rec_before (recs ! j))) (best_score_B ?st)" by simp
  qed
  from run_first [OF recs i]
  have first: "i = 0 \<longrightarrow> ?st = \<lparr>stop_cnt = 0, best_score_B = Fin 0\<rparr>" by simp
  from run_previous [OF recs i]
  have prev: "0 < i \<longrightarrow> rec_result (recs ! (i - 1)) = Inr (?st, False)" by simp
  from val noval le mono first prev show ?thesis by (intro conjI)
qed

theorem validation_state_B_witness:
  "snd (do_training_B scenario_env_B scenario_args_B) = Inr scenario_B
   \<and> 2 < length scenario_B
   \<and> rec_result (scenario_B ! 2) = Inr (\<lparr>stop_cnt = 0, best_score_B = Fin (3 / 5)\<rparr>, False)
   \<and> validates scenario_args_B 2
   \<and> validation (at_epoch scenario_env_B 2) = Inr (Fin (3 / 5))
   \<and> py_lt (best_score_B (rec_before (scenario_B ! 2))) (Fin (3 / 5))
   \<and> stop_cnt (rec_before (scenario_B ! 2)) = 1
   \<and> best_score_B \<lparr>stop_cnt = 0, best_score_B = Fin (3 / 5)\<rparr> = Fin (3 / 5)
   \<and> stop_cnt \<lparr>stop_cnt = 0, best_score_B = Fin (3 / 5)\<rparr> = 0
   \<and> py_le (best_score_B (rec_before (scenario_B ! 2)))
        (best_score_B \<lparr>stop_cnt = 0, best_score_B = Fin (3 / 5)\<rparr>)
   \<and> py_le (best_score_B (rec_before (scenario_B ! 0))) (best_score_B (rec_before (scenario_B ! 2)))
   \<and> py_le (best_score_B (rec_before (scenario_B ! 1))) (best_score_B (rec_before (scenario_B ! 2)))
   \<and> rec_result (scenario_B ! 1) = Inr (rec_before (scenario_B ! 2), False)"
proof -
  have len: "2 < length scenario_B" by (simp add: scenario_B_def)
  have res: "rec_result (scenario_B ! 2) = Inr (\<lparr>stop_cnt = 0, best_score_B = Fin (3 / 5)\<rparr>, False)"
    by (simp add: scenario_B_def)
  have v: "validates scenario_args_B 2"
    by (simp add: validates_def scenario_args_B_def default_args_B_def)
  have f: "validation (at_epoch scenario_env_B 2) = Inr (Fin (3 / 5))"
    by (simp add: scenario_env_B_def quiet_env_def quiet_epoch_def f1_scores_def)
  have lt: "py_lt (best_score_B (rec_before (scenario_B ! 2))) (Fin (3 / 5))"
    and c: "stop_cnt (rec_before (scenario_B ! 2)) = 1"
    by (simp_all add: scenario_B_def)
  note T = validation_state_B [OF scenario_B_run len res]
  from T [THEN conjunct1, THEN mp, OF v] obtain f1 where
    f': "validation (at_epoch scenario_env_B 2) = Inr f1"
    and imp: "py_lt (best_score_B (rec_before (scenario_B ! 2))) f1 \<longrightarrow>
              best_score_B \<lparr>stop_cnt = 0, best_score_B = Fin (3 / 5)\<rparr> = f1
              \<and> stop_cnt \<lparr>stop_cnt = 0, best_score_B = Fin (3 / 5)\<rparr> = 0"
    by (elim exE conjE)
  from f f' have "f1 = Fin (3 / 5)" by simp
  with imp lt have 1: "best_score_B \<lparr>stop_cnt = 0, best_score_B = Fin (3 / 5)\<rparr> = Fin (3 / 5)"
    and 2: "stop_cnt \<lparr>stop_cnt = 0, best_score_B = Fin (3 / 5)\<rparr> = 0" by simp_all
  from T [THEN conjunct2, THEN conjunct2, THEN conjunct1]
  have 3: "py_le (best_score_B (rec_before (scenario_B ! 2)))
        (best_score_B \<lparr>stop_cnt = 0, best_score_B = Fin (3 / 5)\<rparr>)" .
  from T [THEN conjunct2, THEN conjunct2, THEN conjunct2, THEN conjunct1]
  have mono: "\<forall>j\<le>2. py_le (best_score_B (rec_before (scenario_B ! j)))
          (best_score_B (rec_before (scenario_B ! 2)))" .
  from mono [THEN spec, of 0] have m0:
    "py_le (best_score_B (rec_before (scenario_B ! 0))) (best_score_B (rec_before (scenario_B ! 2)))"
    by simp
  from mono [THEN spec, of 1] have m1:
    "py_le (best_score_B (rec_before (scenario_B ! 1))) (best_score_B (rec_before (scenario_B ! 2)))"
    by simp
  from T [THEN conjunct2, THEN conjunct2, THEN conjunct2, THEN conjunct2, THEN conjunct2]
  have p: "rec_result (scenario_B ! 1) = Inr (rec_before (scenario_B ! 2), False)" by simp
  from scenario_B_run len res v f lt c 1 2 3 m0 m1 p show ?thesis by (intro conjI)
qed

text \<open>
  C1, as stated, fails. The test \<open>if stop_cnt > early_stop\<close> stands at the end of the
  loop body, outside the validation branch, and runs in every epoch: with
  \<open>early_stop = -1\<close> and \<open>val_interval = 2\<close> the loop breaks at the end of epoch 0,
  though \<open>(0 + 1) % 2\<close> is not 0.
\<close>

theorem early_stop_B_counterexample:
  "snd (do_training_B scenario_env_B negative_patience_B) =
     Inr [\<lparr>rec_epoch = 0, rec_before = \<lparr>stop_cnt = 0, best_score_B = Fin 0\<rparr>,
           rec_events = [],
           rec_result = Inr (\<lparr>stop_cnt = 0, best_score_B = Fin 0\<rparr>, True)\<rparr>]
   \<and> use_val negative_patience_B
   \<and> (0 + 1) mod val_interval negative_patience_B \<noteq> 0"
  unfolding scenario_env_B_def
  by (simp add: do_training_B_quiet negative_patience_B_def default_args_B_def for_epochs_3
      epoch_B_quiet_eval validates_def f1_scores_def)

text \<open>
  C1, amended. With a patience \<open>early_stop\<close> that is not negative, variant B breaks out
  of the loop in epoch \<open>i\<close> only if \<open>use_val\<close> is true and
  \<open>(i + 1) % val_interval == 0\<close>: the counter was within the patience before the epoch
  and only the validation branch changes it.
\<close>

theorem early_stop_B_when_validating:
  assumes run: "snd (do_training_B env args) = Inr recs"
    and patience: "0 \<le> early_stop args"
    and i: "i < length recs"
    and res: "rec_result (recs ! i) = Inr (st', True)"
  shows "use_val args \<and> val_interval args \<noteq> 0 \<and> (int i + 1) mod val_interval args = 0
     \<and> stop_cnt (rec_before (recs ! i)) \<le> early_stop args \<and> early_stop args < stop_cnt st'"
proof -
  from run obtain nb where recs:
    "recs = for_epochs (\<lambda>epoch. epoch_B args nb (at_epoch env epoch) epoch)
       (nat (max_epoch args)) 0 \<lparr>stop_cnt = 0, best_score_B = Fin 0\<rparr>"
    by (rule do_training_B_recs)
  let ?st = "rec_before (recs ! i)"
  have before: "stop_cnt ?st \<le> early_stop args"
  proof (cases "i = 0")
    case True
    with run_first [OF recs i] patience show ?thesis by simp
  next
    case False
    then have pos: "0 < i" by simp
    with i have p: "i - 1 < length recs" by simp
    from run_step [OF recs p] run_previous [OF recs i pos]
    have "epoch_B args nb (at_epoch env (i - 1)) (i - 1) (rec_before (recs ! (i - 1)))
       = (rec_events (recs ! (i - 1)), Inr (?st, False))" by simp
    from epoch_B_step(1) [OF this] show ?thesis by simp
  qed
  from run_step [OF recs i] res
  have step: "epoch_B args nb (at_epoch env i) i ?st = (rec_events (recs ! i), Inr (st', True))"
    by simp
  from epoch_B_step(1) [OF step] have after: "early_stop args < stop_cnt st'" by simp
  have "validates args i"
  proof (rule ccontr)
    assume "\<not> validates args i"
    with epoch_B_step(3) [OF step] have "st' = ?st" by simp
    with before after show False by simp
  qed
  with before after show ?thesis by (simp add: validates_def)
qed

theorem early_stop_B_when_validating_witness:
  "snd (do_training_B scenario_env_B impatient_args_B) = Inr impatient_B
   \<and> 0 \<le> early_stop impatient_args_B
   \<and> 1 < length impatient_B
   \<and> rec_result (impatient_B ! 1) = Inr (\<lparr>stop_cnt = 1, best_score_B = Fin (1 / 2)\<rparr>, True)
   \<and> use_val impatient_args_B \<and> val_interval impatient_args_B \<noteq> 0
   \<and> (int 1 + 1) mod val_interval impatient_args_B = 0
   \<and> stop_cnt (rec_before (impatient_B ! 1)) \<le> early_stop impatient_args_B
   \<and> early_stop impatient_args_B < stop_cnt \<lparr>stop_cnt = 1, best_score_B = Fin (1 / 2)\<rparr>"
proof -
  have p: "0 \<le> early_stop impatient_args_B" by (simp add: impatient_args_B_def)
  have len: "1 < length impatient_B" by (simp add: impatient_B_def)
  have res: "rec_result (impatient_B ! 1) = Inr (\<lparr>stop_cnt = 1, best_score_B = Fin (1 / 2)\<rparr>, True)"
    by (simp add: impatient_B_def)
  from impatient_B_run p len res early_stop_B_when_validating [OF impatient_B_run p len res]
  show ?thesis by (intro conjI) simp_all
qed

subsection \<open>Periodic checkpoints\<close>

lemma periodic_save_B:
  assumes run: "snd (do_training_B env args) = Inr recs"
    and i: "i < length recs"
    and res: "rec_result (recs ! i) = Inr (st', brk)"
  shows "save_interval args \<noteq> 0 \<and>
     (\<exists>best_calls. rec_events (recs ! i) = best_calls @
        (if (int i + 1) mod save_interval args = 0
         then periodic_calls (model_dir_exists (at_epoch env i)) (model_dir args)
                (pth_name_B (wandb_name args) i (now (at_epoch env i)))
         else [])
      \<and> (best_calls = [] \<or> best_calls =
            [TorchSave (osp_join (model_dir args) (best_pth_name (wandb_name args))),
             SymlinkForce (best_pth_name (wandb_name args))
               (osp_join (model_dir args) ''best_model.pth'')]))"
proof -
  from run obtain nb where recs:
    "recs = for_epochs (\<lambda>epoch. epoch_B args nb (at_epoch env epoch) epoch)
       (nat (max_epoch args)) 0 \<lparr>stop_cnt = 0, best_score_B = Fin 0\<rparr>"
    by (rule do_training_B_recs)
  from run_step [OF recs i] res
  have step: "epoch_B args nb (at_epoch env i) i (rec_before (recs ! i))
     = (rec_events (recs ! i), Inr (st', brk))" by simp
  from epoch_B_train [OF step] obtain loss where l: "train_batches (at_epoch env i) = Inr loss" ..
  show ?thesis
  proof (cases "validates args i")
    case True
    from epoch_B_validation [OF step True] obtain f1 where
      f: "validation (at_epoch env i) = Inr f1" ..
    from epoch_B_validated [OF step True l f] show ?thesis by auto
  next
    case False
    from epoch_B_not_validated [OF step False l] show ?thesis by auto
  qed
qed

lemma periodic_save_A:
  assumes run: "snd (do_training_A env args) = Inr recs"
    and i: "i < length recs"
    and res: "rec_result (recs ! i) = Inr (st', brk)"
  shows "\<exists>best_calls. rec_events (recs ! i) = best_calls @
        (if \<not> brk \<and> (int i + 1) mod save_interval args = 0
         then periodic_calls (model_dir_exists (at_epoch env i)) (model_dir args)
                (pth_name_A i (now (at_epoch env i)))
         else [])
      \<and> (best_calls = [] \<or> best_calls = [TorchSave (osp_join (model_dir args) ''best_model.pth'')])"
proof -
  from run obtain nb where recs:
    "recs = for_epochs (\<lambda>epoch. epoch_A args nb (at_epoch env epoch) epoch)
       (nat (max_epoch args)) 0 \<lparr>early_stop_cnt = 0, best_score_A = Fin 9999\<rparr>"
    by (rule do_training_A_recs)
  from run_step [OF recs i] res
  have step: "epoch_A args nb (at_epoch env i) i (rec_before (recs ! i))
     = (rec_events (recs ! i), Inr (st', brk))" by simp
  from epoch_A_train [OF step] obtain loss where l: "train_batches (at_epoch env i) = Inr loss" ..
  from epoch_A_completed [OF step l] show ?thesis by auto
qed

text \<open>
  C2. Variant A tests \<open>early_stop_cnt > early_stop\<close> and breaks before its periodic
  save, so the epoch that stops the run writes no periodic checkpoint though
  \<open>(epoch + 1) % save_interval == 0\<close>; variant B saves first and breaks afterwards
  (\<open>periodic_save_B\<close> above). With \<open>save_interval = 2\<close>, \<open>early_stop = 0\<close> and the losses
  5 and 6, epoch 1 of variant A breaks and makes no call at all.
\<close>

theorem periodic_save_skipped_A:
  "snd (do_training_A (quiet_env losses_5_6_4 (\<lambda>epoch. Fin 0)) impatient_args_A) =
     Inr [\<lparr>rec_epoch = 0, rec_before = \<lparr>early_stop_cnt = 0, best_score_A = Fin 9999\<rparr>,
           rec_events = [TorchSave ''trained_models/best_model.pth''],
           rec_result = Inr (\<lparr>early_stop_cnt = 0, best_score_A = Fin 5\<rparr>, False)\<rparr>,
          \<lparr>rec_epoch = 1, rec_before = \<lparr>early_stop_cnt = 0, best_score_A = Fin 5\<rparr>,
           rec_events = [],
           rec_result = Inr (\<lparr>early_stop_cnt = 1, best_score_A = Fin 5\<rparr>, True)\<rparr>]
   \<and> (1 + 1) mod save_interval impatient_args_A = 0"
  by (simp add: do_training_A_quiet impatient_args_A_def default_args_A_def for_epochs_3
      epoch_A_quiet_eval periodic_calls_def pth_name_A_def str_nat.simps osp_join_def
      losses_5_6_4_def)

subsection \<open>The validation data set of variant B\<close>

lemma fst_io_bind: "\<exists>rest. fst (io_bind m f) = fst m @ rest"
proof (cases m)
  case (Pair evs r)
  show ?thesis
  proof (cases r)
    case (Inl e)
    with Pair show ?thesis by (simp add: io_bind_def)
  next
    case (Inr x)
    with Pair have "fst (io_bind m f) = fst m @ fst (f x)"
      by (simp add: io_bind_def split: prod.splits)
    then show ?thesis by (rule exI)
  qed
qed

lemma setup_B_prefix:
  assumes quiet: "\<forall>c\<in>set (calls_before_val args). setup_raises env c = None"
    and bs: "batch_size args \<noteq> 0"
  shows "\<exists>rest. fst (setup_B env args) = (calls_before_val args @ [val_dataset args]) @ rest"
    and "setup_raises env (val_dataset args) = Some x \<Longrightarrow>
      setup_B env args = (calls_before_val args @ [val_dataset args], Inl x)"
proof -
  have E: "setup_B env args =
     io_bind (calls_before_val args @ [val_dataset args],
              case setup_raises env (val_dataset args) of Some e \<Rightarrow> Inl e | None \<Rightarrow> Inr ())
       (\<lambda>_. io_bind (io_of (py_ceil_div (int (dataset_len env ''val'')) (batch_size args)))
          (\<lambda>val_num_batches.
        io_bind (ext_calls (setup_raises env)
          [DataLoader ''val'' 1, EAST, ModelTo (device args), AdamW (learning_rate args),
           MultiStepLR (max_epoch args div 2)])
          (\<lambda>_. io_return (- (- int (dataset_len env ''train'') div batch_size args)))))"
    using assms
    by (simp add: setup_B_def calls_before_val_def val_dataset_def ext_call_def io_of_def
        io_return_def py_ceil_div_def io_bind_def split: option.splits)
  show "\<exists>rest. fst (setup_B env args) = (calls_before_val args @ [val_dataset args]) @ rest"
    unfolding E
    using fst_io_bind [of "(calls_before_val args @ [val_dataset args],
              case setup_raises env (val_dataset args) of Some e \<Rightarrow> Inl e | None \<Rightarrow> Inr ())"]
    by simp
  show "setup_B env args = (calls_before_val args @ [val_dataset args], Inl x)"
    if "setup_raises env (val_dataset args) = Some x"
    unfolding E using that by simp
qed

lemma ext_calls_Inr:
  "ext_calls rs cs = (evs, Inr u) \<Longrightarrow> evs = cs \<and> (\<forall>c\<in>set cs. rs c = None)"
proof (induction cs arbitrary: evs)
  case Nil
  then show ?case by (simp add: io_return_Inr)
next
  case (Cons c cs)
  from Cons.prems obtain e1 e2 where "ext_call rs c = (e1, Inr ())"
    and "ext_calls rs cs = (e2, Inr u)" and "evs = e1 @ e2"
    by (auto elim!: io_bind_Inr)
  with Cons.IH [of e2] show ?case by (simp add: ext_call_Inr)
qed

lemma ext_calls_Inr_iff:
  "ext_calls rs cs = (evs, Inr u) \<longleftrightarrow> evs = cs \<and> (\<forall>c\<in>set cs. rs c = None)"
proof
  assume "ext_calls rs cs = (evs, Inr u)"
  then show "evs = cs \<and> (\<forall>c\<in>set cs. rs c = None)" by (rule ext_calls_Inr)
next
  assume "evs = cs \<and> (\<forall>c\<in>set cs. rs c = None)"
  then show "ext_calls rs cs = (evs, Inr u)"
    by (induction cs arbitrary: evs) (simp_all add: io_return_def ext_call_def)
qed

lemma io_bind_Inr_iff:
  "io_bind m f = (evs, Inr y) \<longleftrightarrow>
     (\<exists>e1 x e2. m = (e1, Inr x) \<and> f x = (e2, Inr y) \<and> evs = e1 @ e2)"
  by (cases m) (auto simp: io_bind_def split: sum.splits prod.splits)

lemma setup_B_Inr:
  assumes "setup_B env args = (evs, Inr nb)"
  shows "val_dataset args \<in> set evs \<and> setup_raises env (val_dataset args) = None"
  using assms unfolding setup_B_def val_dataset_def
  by (simp only: io_bind_Inr_iff ext_calls_Inr_iff io_of_Inr io_return_Inr) auto

lemma setup_B_use_val: "setup_B env (args\<lparr>use_val := u\<rparr>) = setup_B env args"
  by (simp add: setup_B_def)

text \<open>
  C9. In variant B the set-up of \<open>do_training\<close> never reads \<open>use_val\<close>. When the calls
  before it do not raise and \<open>batch_size\<close> is not 0, the constructor of the validation
  data set is called next, whatever \<open>use_val\<close> is, and an exception it raises ends
  \<open>do_training\<close> there. The loop is entered only after that call has been made and has
  returned.
\<close>

theorem val_dataset_constructed_regardless:
  "setup_B env (args\<lparr>use_val := u\<rparr>) = setup_B env args
   \<and> ((\<forall>c\<in>set (calls_before_val args). setup_raises env c = None) \<and> batch_size args \<noteq> 0 \<longrightarrow>
        take (length (calls_before_val args) + 1) (fst (do_training_B env args))
          = calls_before_val args @ [val_dataset args]
        \<and> (\<forall>x. setup_raises env (val_dataset args) = Some x \<longrightarrow>
              do_training_B env args = (calls_before_val args @ [val_dataset args], Inl x)))
   \<and> (\<forall>recs. snd (do_training_B env args) = Inr recs \<longrightarrow>
        val_dataset args \<in> set (fst (do_training_B env args))
        \<and> setup_raises env (val_dataset args) = None)"
proof (intro conjI impI allI)
  show "setup_B env (args\<lparr>use_val := u\<rparr>) = setup_B env args" by (rule setup_B_use_val)
next
  assume h: "(\<forall>c\<in>set (calls_before_val args). setup_raises env c = None) \<and> batch_size args \<noteq> 0"
  define pre where "pre = calls_before_val args @ [val_dataset args]"
  from fst_io_bind [of "setup_B env args"] obtain rest1 where
    "fst (do_training_B env args) = fst (setup_B env args) @ rest1"
    unfolding do_training_B_def by blast
  moreover from h setup_B_prefix(1) [of args env] obtain rest2 where
    "fst (setup_B env args) = pre @ rest2" unfolding pre_def by blast
  ultimately have "take (length pre) (fst (do_training_B env args)) = pre" by simp
  then show "take (length (calls_before_val args) + 1) (fst (do_training_B env args))
          = calls_before_val args @ [val_dataset args]"
    by (simp add: pre_def)
  fix x assume "setup_raises env (val_dataset args) = Some x"
  with h setup_B_prefix(2) [of args env x] have "setup_B env args = (pre, Inl x)"
    unfolding pre_def by blast
  then show "do_training_B env args = (calls_before_val args @ [val_dataset args], Inl x)"
    unfolding do_training_B_def by (simp add: pre_def)
next
  fix recs assume r: "snd (do_training_B env args) = Inr recs"
  obtain calls where "do_training_B env args = (calls, Inr recs)"
    using r by (cases "do_training_B env args") simp
  then obtain evs nb where s: "setup_B env args = (evs, Inr nb)"
    and c: "calls = evs @ []"
    unfolding do_training_B_def by (auto elim!: io_bind_Inr simp: io_return_Inr)
  from setup_B_Inr [OF s] c \<open>do_training_B env args = (calls, Inr recs)\<close>
  show "val_dataset args \<in> set (fst (do_training_B env args))"
    and "setup_raises env (val_dataset args) = None" by simp_all
qed

theorem val_dataset_constructed_regardless_witness:
  "\<not> use_val (default_args_B\<lparr>use_val := False\<rparr>)
   \<and> batch_size (default_args_B\<lparr>use_val := False\<rparr>) \<noteq> 0
   \<and> setup_raises missing_val_env (val_dataset (default_args_B\<lparr>use_val := False\<rparr>))
       = Some (Raised ''FileNotFoundError'')
   \<and> do_training_B missing_val_env (default_args_B\<lparr>use_val := False\<rparr>)
       = (calls_before_val (default_args_B\<lparr>use_val := False\<rparr>)
            @ [val_dataset (default_args_B\<lparr>use_val := False\<rparr>)],
          Inl (Raised ''FileNotFoundError''))
   \<and> snd (do_training_B scenario_env_B scenario_args_B) = Inr scenario_B
   \<and> val_dataset scenario_args_B \<in> set (fst (do_training_B scenario_env_B scenario_args_B))"
proof -
  let ?args = "default_args_B\<lparr>use_val := False\<rparr>"
  have u: "\<not> use_val ?args" by simp
  have q: "\<forall>c\<in>set (calls_before_val ?args). setup_raises missing_val_env c = None"
    by (simp add: calls_before_val_def missing_val_env_def val_dataset_def)
  have b: "batch_size ?args \<noteq> 0" by (simp add: default_args_B_def)
  have r: "setup_raises missing_val_env (val_dataset ?args) = Some (Raised ''FileNotFoundError'')"
    by (simp add: missing_val_env_def val_dataset_def)
  note A = val_dataset_constructed_regardless [where env = missing_val_env and args = ?args and u = False]
  note B = val_dataset_constructed_regardless [where env = scenario_env_B and args = scenario_args_B and u = False]
  from A [THEN conjunct2, THEN conjunct1, THEN mp, OF conjI, OF q b, THEN conjunct2, THEN spec,
      THEN mp, OF r]
  have 1: "do_training_B missing_val_env ?args
       = (calls_before_val ?args @ [val_dataset ?args], Inl (Raised ''FileNotFoundError''))" .
  from B [THEN conjunct2, THEN conjunct2, THEN spec, THEN mp, OF scenario_B_run, THEN conjunct1]
  have 2: "val_dataset scenario_args_B \<in> set (fst (do_training_B scenario_env_B scenario_args_B))" .
  from u b r 1 scenario_B_run 2 show ?thesis by (intro conjI)
qed

end
